theory Spec2Isabelle
  imports Complex_Main "HOL-Library.Sublist"
begin

section \<open>Resona: the playback engine, the sample tap and the radio library\<close>

text \<open>
  A shallow embedding of the audio player and of the radio station library of the
  repository (the file holding \<^verbatim>\<open>RadioLibrary\<close>, \<^verbatim>\<open>SampleCaptureStreamer\<close> and
  \<^verbatim>\<open>AudioPlayer\<close>). Every method becomes a function on the receiver's fields; the
  network, the file system and the decoders are an environment of functions that thread
  a world value; the clock is read by passing the reading to the operation that reads it.
  The mutexes only serialise the operations and are not state of the model, and the
  diagnostic \<^verbatim>\<open>log.Printf\<close> lines are left out.
\<close>

subsection \<open>Strings\<close>

text \<open>
  A Go string is a byte sequence, here a \<^typ>\<open>string\<close>. \<^verbatim>\<open>strings.HasPrefix\<close> and
  \<^verbatim>\<open>strings.Contains\<close> keep Go's argument order.
\<close>

definition HasPrefix :: "string \<Rightarrow> string \<Rightarrow> bool" where
  "HasPrefix s p = prefix p s"

fun Contains :: "string \<Rightarrow> string \<Rightarrow> bool" where
  "Contains [] sub = (sub = [])"
| "Contains (c # cs) sub = (prefix sub (c # cs) \<or> Contains cs sub)"

text \<open>
  \<^verbatim>\<open>strings.ToLower\<close> on the ASCII letters. Go also lowers letters outside ASCII; the
  only ones whose lower case is an ASCII letter are the Kelvin sign (to k) and the dotted
  capital I (to i), neither of which occurs in an extension the player accepts, so the
  comparisons made with the result are the same.
\<close>

definition lowerChar :: "char \<Rightarrow> char" where
  "lowerChar c =
     (case map_of (zip ''ABCDEFGHIJKLMNOPQRSTUVWXYZ'' ''abcdefghijklmnopqrstuvwxyz'') c of
        Some l \<Rightarrow> l
      | None \<Rightarrow> c)"

definition ToLower :: "string \<Rightarrow> string" where
  "ToLower s = map lowerChar s"

text \<open>
  \<^verbatim>\<open>filepath.Ext\<close> with \<^verbatim>\<open>/\<close> as the separator: walking back from the end of the
  path, the suffix from the first dot met, and the empty string when a separator or the
  start of the path comes first.
\<close>

fun extFrom :: "string \<Rightarrow> string \<Rightarrow> string" where
  "extFrom [] acc = []"
| "extFrom (c # cs) acc =
     (if c = CHR ''/'' then []
      else if c = CHR ''.'' then c # acc
      else extFrom cs (c # acc))"

definition Ext :: "string \<Rightarrow> string" where
  "Ext path = extFrom (rev path) []"

text \<open>
  \<^verbatim>\<open>strings.TrimSpace\<close> removes the leading and the trailing white space of Unicode.
  On the bytes of the string these are the encodings below: six ASCII characters and the
  UTF-8 encodings of U+0085, U+00A0, U+1680, U+2000 to U+200A, U+2028, U+2029, U+202F,
  U+205F and U+3000.
\<close>

definition spaceEncodings :: "string list" where
  "spaceEncodings =
     [[CHR 0x09], [CHR 0x0A], [CHR 0x0B], [CHR 0x0C], [CHR 0x0D], [CHR 0x20],
      [CHR 0xC2, CHR 0x85], [CHR 0xC2, CHR 0xA0], [CHR 0xE1, CHR 0x9A, CHR 0x80],
      [CHR 0xE2, CHR 0x80, CHR 0x80], [CHR 0xE2, CHR 0x80, CHR 0x81],
      [CHR 0xE2, CHR 0x80, CHR 0x82], [CHR 0xE2, CHR 0x80, CHR 0x83],
      [CHR 0xE2, CHR 0x80, CHR 0x84], [CHR 0xE2, CHR 0x80, CHR 0x85],
      [CHR 0xE2, CHR 0x80, CHR 0x86], [CHR 0xE2, CHR 0x80, CHR 0x87],
      [CHR 0xE2, CHR 0x80, CHR 0x88], [CHR 0xE2, CHR 0x80, CHR 0x89],
      [CHR 0xE2, CHR 0x80, CHR 0x8A], [CHR 0xE2, CHR 0x80, CHR 0xA8],
      [CHR 0xE2, CHR 0x80, CHR 0xA9], [CHR 0xE2, CHR 0x80, CHR 0xAF],
      [CHR 0xE2, CHR 0x81, CHR 0x9F], [CHR 0xE3, CHR 0x80, CHR 0x80]]"

definition stripOne :: "string list \<Rightarrow> string \<Rightarrow> string option" where
  "stripOne encs s =
     (case filter (\<lambda>p. p \<noteq> [] \<and> prefix p s) encs of
        [] \<Rightarrow> None
      | p # _ \<Rightarrow> Some (drop (length p) s))"

function trimLeading :: "string list \<Rightarrow> string \<Rightarrow> string" where
  "trimLeading encs s = (case stripOne encs s of None \<Rightarrow> s | Some r \<Rightarrow> trimLeading encs r)"
  by pat_completeness auto
termination
proof (relation "measure (\<lambda>(encs, s). length s)")
  show "wf (measure (\<lambda>(encs, s). length s))" by simp
next
  fix encs :: "string list" and s r :: string
  assume "stripOne encs s = Some r"
  then obtain p ps where f: "filter (\<lambda>p. p \<noteq> [] \<and> prefix p s) encs = p # ps"
    and r: "r = drop (length p) s"
    by (auto simp: stripOne_def split: list.splits)
  from f have "p \<in> set (filter (\<lambda>p. p \<noteq> [] \<and> prefix p s) encs)" by simp
  then have "p \<noteq> []" and "prefix p s" by simp_all
  then have "s \<noteq> []" by auto
  with \<open>p \<noteq> []\<close> r have "length r < length s" by simp
  then show "((encs, r), (encs, s)) \<in> measure (\<lambda>(encs, s). length s)" by simp
qed

definition TrimSpace :: "string \<Rightarrow> string" where
  "TrimSpace s = rev (trimLeading (map rev spaceEncodings) (rev (trimLeading spaceEncodings s)))"

text \<open>\<^verbatim>\<open>strings.SplitN(s, "=", 2)\<close>: cut at the first \<^verbatim>\<open>=\<close>, if there is one.\<close>

definition SplitN2 :: "string \<Rightarrow> string list" where
  "SplitN2 s =
     (if CHR ''='' \<in> set s
      then [takeWhile (\<lambda>c. c \<noteq> CHR ''='') s, tl (dropWhile (\<lambda>c. c \<noteq> CHR ''='') s)]
      else [s])"

subsection \<open>Durations, clock readings and float64\<close>

text \<open>
  A \<^verbatim>\<open>time.Duration\<close> is an int64 count of nanoseconds and a clock reading is the
  monotonic reading of \<^verbatim>\<open>time.Now()\<close> in nanoseconds. Both are integers here, with the
  int64 behaviour written out: \<^verbatim>\<open>+\<close> on durations wraps and \<^verbatim>\<open>time.Since\<close>
  saturates.
\<close>

type_synonym Time = int
type_synonym Duration = int

definition minDuration :: Duration where
  "minDuration = - (2 ^ 63)"

definition maxDuration :: Duration where
  "maxDuration = 2 ^ 63 - 1"

definition wrap64 :: "int \<Rightarrow> int" where
  "wrap64 x = (x + 2 ^ 63) mod 2 ^ 64 - 2 ^ 63"

definition Since :: "Time \<Rightarrow> Time \<Rightarrow> Duration" where
  "Since now t =
     (let d = now - t
      in if maxDuration < d then maxDuration
         else if d < minDuration then minDuration
         else d)"

text \<open>
  A float64 is a number, an infinity or NaN. Numbers are reals: rounding and the sign of
  zero are not modelled. Comparisons with NaN are false and division follows IEEE 754.
\<close>

datatype float64 = Num real | PosInf | NegInf | NaN

fun fle :: "float64 \<Rightarrow> float64 \<Rightarrow> bool" where
  "fle NaN y = False"
| "fle x NaN = False"
| "fle NegInf y = True"
| "fle x PosInf = True"
| "fle PosInf y = False"
| "fle x NegInf = False"
| "fle (Num a) (Num b) = (a \<le> b)"

fun flt :: "float64 \<Rightarrow> float64 \<Rightarrow> bool" where
  "flt NaN y = False"
| "flt x NaN = False"
| "flt PosInf y = False"
| "flt x NegInf = False"
| "flt NegInf y = True"
| "flt x PosInf = True"
| "flt (Num a) (Num b) = (a < b)"

definition fgt :: "float64 \<Rightarrow> float64 \<Rightarrow> bool" where
  "fgt x y = flt y x"

fun fneg :: "float64 \<Rightarrow> float64" where
  "fneg (Num a) = Num (- a)"
| "fneg PosInf = NegInf"
| "fneg NegInf = PosInf"
| "fneg NaN = NaN"

fun fdiv :: "float64 \<Rightarrow> float64 \<Rightarrow> float64" where
  "fdiv NaN y = NaN"
| "fdiv x NaN = NaN"
| "fdiv (Num a) (Num b) =
     (if b = 0 then (if a = 0 then NaN else if 0 < a then PosInf else NegInf)
      else Num (a / b))"
| "fdiv (Num a) y = Num 0"
| "fdiv x (Num b) = (if 0 \<le> b then x else fneg x)"
| "fdiv x y = NaN"

text \<open>\<^verbatim>\<open>Duration.Seconds\<close>: the nanoseconds divided by \<open>10\<^sup>9\<close>.\<close>

definition Seconds :: "Duration \<Rightarrow> float64" where
  "Seconds d = Num (real_of_int d / 10 ^ 9)"

subsection \<open>Errors\<close>

text \<open>
  One constructor for each error the code builds; \<^verbatim>\<open>%w\<close> wrapping keeps the wrapped
  error as an argument. \<open>External\<close> is an error of the network, the file system or a
  decoder.
\<close>

datatype error =
    External string
  | UnsupportedFileFormat string
  | FailedToCreateRequest error
  | FailedToConnect error
  | StreamStatus int string
  | UnsupportedFormat string
  | AllStreamURLsFailed "error option"
  | StationIsNil
  | FailedToFetchPlaylist error
  | FetchPlaylistStatus int
  | UnsupportedPlaylistFormat
  | NoStreamURLsInPLS
  | NoStreamURLsInM3U
  | FailedToResolvePlaylist error

subsection \<open>The sample tap and the player: data\<close>

text \<open>
  A stereo frame is a pair of samples. Sample values are reals: decoders produce finite
  samples, and the arithmetic on them is taken as exact.
\<close>

type_synonym frame = "real \<times> real"

text \<open>
  \<open>audioPlayer\<close> is the pointer to the player: \<open>True\<close> when it is not nil (there is one
  player). \<open>streamer\<close> is the state of the wrapped streamer.
\<close>

record 'src SampleCaptureStreamer =
  streamer :: 'src
  audioPlayer :: bool
  sampleBuffer :: "real list"
  bufferSize :: int

record 'src Ctrl =
  Streamer :: "'src SampleCaptureStreamer option"
  Paused :: bool

text \<open>
  \<open>ctrl\<close> is the control wrapper of the session, \<open>None\<close> for nil. \<open>mixer\<close> lists what is
  attached to the mixer: for each session the decoded stream and the reader that its
  completion callback closes. \<open>audioSamples\<close> is a slice: \<open>None\<close> for nil, else the
  address of its array in the store of float arrays.
\<close>

record ('rd, 'src) AudioPlayer =
  ctrl :: "'src Ctrl option"
  mixer :: "('src \<times> 'rd) list"
  isPlaying :: bool
  isPaused :: bool
  currentSong :: string
  speakerInit :: bool
  startTime :: Time
  pausedTime :: Duration
  duration :: float64
  audioSamples :: "nat option"

definition NewSampleCaptureStreamer :: "'src \<Rightarrow> bool \<Rightarrow> 'src SampleCaptureStreamer" where
  "NewSampleCaptureStreamer s ap =
     \<lparr>streamer = s, audioPlayer = ap, sampleBuffer = [], bufferSize = 1024\<rparr>"

text \<open>The fields the constructor does not set have Go's zero values.\<close>

definition NewAudioPlayer :: "('rd, 'src) AudioPlayer" where
  "NewAudioPlayer =
     \<lparr>ctrl = None, mixer = [], isPlaying = False, isPaused = False, currentSong = [],
      speakerInit = True, startTime = 0, pausedTime = 0, duration = Num 0,
      audioSamples = None\<rparr>"

subsection \<open>The environment\<close>

datatype codec = MP3 | WAV | FLAC | Vorbis

record 'rd response =
  StatusCode :: int
  Status :: string
  ContentType :: string
  Body :: 'rd

text \<open>
  What the player asks of the outside: \<^verbatim>\<open>http.NewRequest\<close> (which only parses the
  URL), \<^verbatim>\<open>client.Do\<close>, \<^verbatim>\<open>os.Open\<close>, the decoders, \<^verbatim>\<open>Close\<close> of a reader and
  \<^verbatim>\<open>Close\<close> of a decoded stream. Each call that reaches the outside takes the world
  and returns the next one.
\<close>

record ('w, 'rd, 'src) env =
  envNewRequest :: "string \<Rightarrow> error option"
  envDo :: "string \<Rightarrow> 'w \<Rightarrow> (error + 'rd response) \<times> 'w"
  envOpen :: "string \<Rightarrow> 'w \<Rightarrow> (error + 'rd) \<times> 'w"
  envDecode :: "codec \<Rightarrow> 'rd \<Rightarrow> 'w \<Rightarrow> (error + 'src) \<times> 'w"
  envClose :: "'rd \<Rightarrow> 'w \<Rightarrow> 'w"
  envCloseStream :: "'src \<Rightarrow> 'w \<Rightarrow> 'w"

text \<open>The calls made to the outside, in order, are recorded beside the world.\<close>

datatype event =
  EvDo string | EvOpen string | EvDecode codec | EvClose | EvCloseStream | EvGet string | EvSave

record 'w io =
  world :: 'w
  trace :: "event list"

definition ioDo :: "('w, 'rd, 'src) env \<Rightarrow> string \<Rightarrow> 'w io \<Rightarrow> (error + 'rd response) \<times> 'w io" where
  "ioDo e url st =
     (let (r, w) = envDo e url (world st)
      in (r, \<lparr>world = w, trace = trace st @ [EvDo url]\<rparr>))"

definition ioOpen :: "('w, 'rd, 'src) env \<Rightarrow> string \<Rightarrow> 'w io \<Rightarrow> (error + 'rd) \<times> 'w io" where
  "ioOpen e path st =
     (let (r, w) = envOpen e path (world st)
      in (r, \<lparr>world = w, trace = trace st @ [EvOpen path]\<rparr>))"

definition ioDecode :: "('w, 'rd, 'src) env \<Rightarrow> codec \<Rightarrow> 'rd \<Rightarrow> 'w io \<Rightarrow> (error + 'src) \<times> 'w io" where
  "ioDecode e c rd st =
     (let (r, w) = envDecode e c rd (world st)
      in (r, \<lparr>world = w, trace = trace st @ [EvDecode c]\<rparr>))"

definition ioClose :: "('w, 'rd, 'src) env \<Rightarrow> 'rd \<Rightarrow> 'w io \<Rightarrow> 'w io" where
  "ioClose e rd st = \<lparr>world = envClose e rd (world st), trace = trace st @ [EvClose]\<rparr>"

definition ioCloseStream :: "('w, 'rd, 'src) env \<Rightarrow> 'src \<Rightarrow> 'w io \<Rightarrow> 'w io" where
  "ioCloseStream e s st =
     \<lparr>world = envCloseStream e s (world st), trace = trace st @ [EvCloseStream]\<rparr>"

subsection \<open>Transport controls and queries\<close>

definition isURL :: "string \<Rightarrow> bool" where
  "isURL filePath = (HasPrefix filePath ''http://'' \<or> HasPrefix filePath ''https://'')"

definition isFileSupported :: "string \<Rightarrow> bool" where
  "isFileSupported filePath =
     (let ext = ToLower (Ext filePath)
      in ext = ''.mp3'' \<or> ext = ''.wav'' \<or> ext = ''.flac'' \<or> ext = ''.ogg'')"

text \<open>
  \<^verbatim>\<open>Pause\<close> reads the clock twice: in \<^verbatim>\<open>time.Since\<close> (\<open>now\<close>) and in
  \<^verbatim>\<open>time.Now()\<close> (\<open>now'\<close>).
\<close>

definition Pause :: "Time \<Rightarrow> Time \<Rightarrow> ('rd, 'src) AudioPlayer \<Rightarrow> ('rd, 'src) AudioPlayer" where
  "Pause now now' ap =
     (case ctrl ap of
        None \<Rightarrow> ap
      | Some c \<Rightarrow>
          if isPlaying ap \<and> \<not> isPaused ap
          then ap\<lparr>ctrl := Some (c\<lparr>Paused := True\<rparr>),
                  isPaused := True,
                  pausedTime := wrap64 (pausedTime ap + Since now (startTime ap)),
                  startTime := now'\<rparr>
          else ap)"

definition Resume :: "Time \<Rightarrow> ('rd, 'src) AudioPlayer \<Rightarrow> ('rd, 'src) AudioPlayer" where
  "Resume now ap =
     (case ctrl ap of
        None \<Rightarrow> ap
      | Some c \<Rightarrow>
          if isPlaying ap \<and> isPaused ap
          then ap\<lparr>ctrl := Some (c\<lparr>Paused := False\<rparr>),
                  isPaused := False,
                  startTime := now\<rparr>
          else ap)"

definition TogglePause :: "Time \<Rightarrow> Time \<Rightarrow> ('rd, 'src) AudioPlayer \<Rightarrow> ('rd, 'src) AudioPlayer" where
  "TogglePause now now' ap =
     (case ctrl ap of
        None \<Rightarrow> ap
      | Some c \<Rightarrow>
          if isPlaying ap
          then (if isPaused ap
                then ap\<lparr>ctrl := Some (c\<lparr>Paused := False\<rparr>),
                        isPaused := False,
                        startTime := now\<rparr>
                else ap\<lparr>ctrl := Some (c\<lparr>Paused := True\<rparr>),
                        isPaused := True,
                        pausedTime := wrap64 (pausedTime ap + Since now (startTime ap)),
                        startTime := now'\<rparr>)
          else ap)"

text \<open>
  \<^verbatim>\<open>Stop\<close> sets the \<^verbatim>\<open>Streamer\<close> of the control wrapper to nil and drops the
  wrapper, clears the mixer and resets the flags and the song.
\<close>

definition Stop :: "('rd, 'src) AudioPlayer \<Rightarrow> ('rd, 'src) AudioPlayer" where
  "Stop ap =
     (let ap1 = (case ctrl ap of None \<Rightarrow> ap | Some c \<Rightarrow> ap\<lparr>ctrl := None\<rparr>)
      in ap1\<lparr>mixer := [], isPlaying := False, isPaused := False, currentSong := []\<rparr>)"

definition IsPlaying :: "('rd, 'src) AudioPlayer \<Rightarrow> bool" where
  "IsPlaying ap =
     (case ctrl ap of
        Some c \<Rightarrow> isPlaying ap \<and> \<not> Paused c
      | None \<Rightarrow> isPlaying ap)"

definition IsPaused :: "('rd, 'src) AudioPlayer \<Rightarrow> bool" where
  "IsPaused ap = (case ctrl ap of Some c \<Rightarrow> Paused c | None \<Rightarrow> False)"

definition CurrentSong :: "('rd, 'src) AudioPlayer \<Rightarrow> string" where
  "CurrentSong ap = currentSong ap"

definition SetDuration :: "float64 \<Rightarrow> ('rd, 'src) AudioPlayer \<Rightarrow> ('rd, 'src) AudioPlayer" where
  "SetDuration d ap = ap\<lparr>duration := d\<rparr>"

definition GetPosition :: "Time \<Rightarrow> ('rd, 'src) AudioPlayer \<Rightarrow> float64" where
  "GetPosition now ap =
     (if \<not> isPlaying ap \<and> \<not> isPaused ap then Num 0
      else Seconds (if isPaused ap then pausedTime ap
                    else wrap64 (pausedTime ap + Since now (startTime ap))))"

definition GetDuration :: "('rd, 'src) AudioPlayer \<Rightarrow> float64" where
  "GetDuration ap = duration ap"

definition GetProgress :: "Time \<Rightarrow> ('rd, 'src) AudioPlayer \<Rightarrow> float64" where
  "GetProgress now ap =
     (let position = GetPosition now ap;
          duration = GetDuration ap
      in if fle duration (Num 0) then Num 0
         else (let progress = fdiv position duration;
                   progress = (if fgt progress (Num 1) then Num 1 else progress);
                   progress = (if flt progress (Num 0) then Num 0 else progress)
               in progress))"

text \<open>
  The completion callback that \<^verbatim>\<open>playDirectly\<close> attaches behind the control wrapper:
  the mixer runs it when the stream is exhausted. It clears the flags and closes the
  decoded stream and the reader of the session.
\<close>

definition completionCallback ::
  "('w, 'rd, 'src) env \<Rightarrow> 'src \<Rightarrow> 'rd \<Rightarrow>
   ('rd, 'src) AudioPlayer \<times> 'w io \<Rightarrow> ('rd, 'src) AudioPlayer \<times> 'w io" where
  "completionCallback e s rd st =
     (case st of (ap, w) \<Rightarrow>
        (ap\<lparr>isPlaying := False, isPaused := False\<rparr>, ioClose e rd (ioCloseStream e s w)))"

subsection \<open>Playing\<close>

text \<open>
  \<^verbatim>\<open>playDirectly\<close>: open the source, pick the decoder, decode, and on success install
  the session. \<open>now\<close> is the reading of \<^verbatim>\<open>time.Now()\<close>, which only the success path
  takes. The result is the error (\<open>None\<close> for nil) and the state. The decoded stream
  \<open>s\<close> stands for the decoder's stream behind the resampler, which the sample tap
  wraps.
\<close>

definition installSession ::
  "Time \<Rightarrow> string \<Rightarrow> 'src \<Rightarrow> 'rd \<Rightarrow> ('rd, 'src) AudioPlayer \<Rightarrow> ('rd, 'src) AudioPlayer" where
  "installSession now filePath s rd ap =
     ap\<lparr>ctrl := Some \<lparr>Streamer = Some (NewSampleCaptureStreamer s True), Paused = False\<rparr>,
        isPlaying := True,
        isPaused := False,
        currentSong := filePath,
        startTime := now,
        pausedTime := 0,
        mixer := mixer ap @ [(s, rd)]\<rparr>"

definition decodeAndInstall ::
  "('w, 'rd, 'src) env \<Rightarrow> Time \<Rightarrow> string \<Rightarrow> codec \<Rightarrow> 'rd \<Rightarrow>
   ('rd, 'src) AudioPlayer \<times> 'w io \<Rightarrow> error option \<times> ('rd, 'src) AudioPlayer \<times> 'w io" where
  "decodeAndInstall e now filePath c rd st =
     (case st of (ap, w) \<Rightarrow>
        (case ioDecode e c rd w of
           (Inl err, w1) \<Rightarrow> (Some err, ap, ioClose e rd w1)
         | (Inr s, w1) \<Rightarrow> (None, installSession now filePath s rd ap, w1)))"

definition playDirectly ::
  "('w, 'rd, 'src) env \<Rightarrow> Time \<Rightarrow> string \<Rightarrow>
   ('rd, 'src) AudioPlayer \<times> 'w io \<Rightarrow> error option \<times> ('rd, 'src) AudioPlayer \<times> 'w io" where
  "playDirectly e now filePath st =
     (case st of (ap, w) \<Rightarrow>
        if isURL filePath
        then (case envNewRequest e filePath of
                Some err \<Rightarrow> (Some (FailedToCreateRequest err), ap, w)
              | None \<Rightarrow>
                  (case ioDo e filePath w of
                     (Inl err, w1) \<Rightarrow> (Some (FailedToConnect err), ap, w1)
                   | (Inr resp, w1) \<Rightarrow>
                       if StatusCode resp \<noteq> 200
                       then (Some (StreamStatus (StatusCode resp) (Status resp)), ap,
                             ioClose e (Body resp) w1)
                       else decodeAndInstall e now filePath
                              (if Contains (ContentType resp) ''ogg'' \<or>
                                  Contains (ContentType resp) ''vorbis''
                               then Vorbis else MP3)
                              (Body resp) (ap, w1)))
        else (case ioOpen e filePath w of
                (Inl err, w1) \<Rightarrow> (Some err, ap, w1)
              | (Inr rd, w1) \<Rightarrow>
                  (let ext = ToLower (Ext filePath)
                   in if ext = ''.mp3'' then decodeAndInstall e now filePath MP3 rd (ap, w1)
                      else if ext = ''.wav'' then decodeAndInstall e now filePath WAV rd (ap, w1)
                      else if ext = ''.flac'' then decodeAndInstall e now filePath FLAC rd (ap, w1)
                      else if ext = ''.ogg'' then decodeAndInstall e now filePath Vorbis rd (ap, w1)
                      else (Some (UnsupportedFormat ext), ap, ioClose e rd w1))))"

text \<open>
  \<^verbatim>\<open>playWithFallback\<close>: the loop over the URLs with its \<open>lastError\<close> variable; it
  returns nil at the first URL that plays, and after the loop the error that wraps
  \<open>lastError\<close>.
\<close>

fun fallbackLoop ::
  "('w, 'rd, 'src) env \<Rightarrow> Time \<Rightarrow> string list \<Rightarrow> error option \<Rightarrow>
   ('rd, 'src) AudioPlayer \<times> 'w io \<Rightarrow> error option \<times> ('rd, 'src) AudioPlayer \<times> 'w io" where
  "fallbackLoop e now [] lastError st = (Some (AllStreamURLsFailed lastError), st)"
| "fallbackLoop e now (url # urls) lastError st =
     (case playDirectly e now url st of
        (None, st1) \<Rightarrow> (None, st1)
      | (Some err, st1) \<Rightarrow> fallbackLoop e now urls (Some err) st1)"

definition playWithFallback ::
  "('w, 'rd, 'src) env \<Rightarrow> Time \<Rightarrow> string list \<Rightarrow>
   ('rd, 'src) AudioPlayer \<times> 'w io \<Rightarrow> error option \<times> ('rd, 'src) AudioPlayer \<times> 'w io" where
  "playWithFallback e now urls st = fallbackLoop e now urls None st"

definition Play ::
  "('w, 'rd, 'src) env \<Rightarrow> Time \<Rightarrow> string \<Rightarrow>
   ('rd, 'src) AudioPlayer \<times> 'w io \<Rightarrow> error option \<times> ('rd, 'src) AudioPlayer \<times> 'w io" where
  "Play e now filePath st =
     (if \<not> isURL filePath \<and> \<not> isFileSupported filePath
      then (Some (UnsupportedFileFormat (Ext filePath)), st)
      else (case st of (ap, w) \<Rightarrow>
              if isURL filePath
              then playWithFallback e now [filePath] (Stop ap, w)
              else playDirectly e now filePath (Stop ap, w)))"

text \<open>
  A radio station. The times are wall-clock readings; \<open>Metadata\<close> is the map of the
  struct.
\<close>

record RadioStation =
  Name :: string
  URL :: string
  StreamURL :: string
  StreamURLs :: "string list"
  Genre :: string
  Language :: string
  Country :: string
  Bitrate :: string
  Description :: string
  Tags :: "string list"
  Metadata :: "string \<rightharpoonup> string"
  AddedAt :: int
  LastPlayed :: int

text \<open>The station is a pointer: \<open>None\<close> for nil.\<close>

definition PlayRadioStation ::
  "('w, 'rd, 'src) env \<Rightarrow> Time \<Rightarrow> RadioStation option \<Rightarrow>
   ('rd, 'src) AudioPlayer \<times> 'w io \<Rightarrow> error option \<times> ('rd, 'src) AudioPlayer \<times> 'w io" where
  "PlayRadioStation e now station st =
     (case station of
        None \<Rightarrow> (Some StationIsNil, st)
      | Some s \<Rightarrow>
          playWithFallback e now
            (if 0 < length (StreamURLs s) then StreamURLs s
             else if StreamURL s \<noteq> [] then [StreamURL s]
             else [URL s])
            st)"

subsection \<open>The sample tap\<close>

text \<open>
  The wrapped streamer is any implementation of \<^verbatim>\<open>beep.Streamer\<close>: \<open>opStream\<close> takes
  its state and the buffer and returns the buffer as it left it, the count, the flag and
  its next state; \<open>opErr\<close> is its \<^verbatim>\<open>Err\<close>.
\<close>

record 'src streamerOps =
  opStream :: "'src \<Rightarrow> frame list \<Rightarrow> (frame list \<times> int \<times> bool) \<times> 'src"
  opErr :: "'src \<Rightarrow> error option"

text \<open>
  The store of float arrays: an address is an index, \<^verbatim>\<open>make\<close> appends a new array.
  Every slice of the program covers its whole array.
\<close>

type_synonym store = "real list list"

text \<open>
  The body of the loop over the bands in \<^verbatim>\<open>analyzeAndStore\<close>: the root mean square
  of the samples of one band.
\<close>

definition bandRMS :: "real list \<Rightarrow> nat \<Rightarrow> nat \<Rightarrow> real" where
  "bandRMS buf bandSize band =
     (let startIdx = band * bandSize;
          endIdx = (if length buf < startIdx + bandSize then length buf else startIdx + bandSize);
          sum = foldl (\<lambda>acc i. acc + buf ! i * buf ! i) 0 [startIdx..<endIdx]
      in sqrt (sum / real (endIdx - startIdx)))"

definition analyzeAndStore ::
  "'src SampleCaptureStreamer \<Rightarrow> ('rd, 'src2) AudioPlayer \<times> store \<Rightarrow> ('rd, 'src2) AudioPlayer \<times> store" where
  "analyzeAndStore s st =
     (case st of (ap, h) \<Rightarrow>
        if \<not> audioPlayer s then st
        else (let numBands = 24;
                  bandSize = length (sampleBuffer s) div numBands
              in if bandSize = 0 then st
                 else (let amplitudes = map (bandRMS (sampleBuffer s) bandSize) [0..<numBands]
                       in (ap\<lparr>audioSamples := Some (length h)\<rparr>, h @ [amplitudes]))))"

text \<open>
  The loop of \<^verbatim>\<open>Stream\<close> over the first \<open>n\<close> frames: the mean of the two channels
  of each frame, in order.
\<close>

definition mixFrames :: "frame list \<Rightarrow> int \<Rightarrow> real list" where
  "mixFrames samples n = map (\<lambda>f. (fst f + snd f) / 2) (take (nat n) samples)"

text \<open>
  \<^verbatim>\<open>Stream\<close>. The result is \<open>None\<close> when the loop reads \<^verbatim>\<open>samples[i]\<close> beyond
  the buffer, which panics: that happens when the wrapped streamer reports more frames
  than the buffer holds.
\<close>

definition Stream ::
  "'src streamerOps \<Rightarrow> frame list \<Rightarrow>
   'src SampleCaptureStreamer \<times> ('rd, 'src2) AudioPlayer \<times> store \<Rightarrow>
   ((frame list \<times> int \<times> bool) \<times> 'src SampleCaptureStreamer \<times> ('rd, 'src2) AudioPlayer \<times> store) option" where
  "Stream ops samples st =
     (case st of (s, ap, h) \<Rightarrow>
        (case opStream ops (streamer s) samples of
           ((samples1, n, ok), src1) \<Rightarrow>
             (let s1 = s\<lparr>streamer := src1\<rparr>
              in if ok \<and> 0 < n
                 then (if int (length samples1) < n then None
                       else (let s2 = s1\<lparr>sampleBuffer :=
                                          sampleBuffer s1 @ mixFrames samples1 n\<rparr>
                             in if bufferSize s2 \<le> int (length (sampleBuffer s2))
                                then (case analyzeAndStore s2 (ap, h) of
                                        (ap1, h1) \<Rightarrow>
                                          Some ((samples1, n, ok), s2\<lparr>sampleBuffer := []\<rparr>, ap1, h1))
                                else Some ((samples1, n, ok), s2, ap, h)))
                 else Some ((samples1, n, ok), s1, ap, h))))"

definition Err :: "'src streamerOps \<Rightarrow> 'src SampleCaptureStreamer \<Rightarrow> error option" where
  "Err ops s = opErr ops (streamer s)"

text \<open>
  \<^verbatim>\<open>GetAudioSamples\<close> returns a new slice: its address and the store with the new
  array.
\<close>

definition GetAudioSamples :: "('rd, 'src) AudioPlayer \<times> store \<Rightarrow> nat \<times> store" where
  "GetAudioSamples st =
     (case st of (ap, h) \<Rightarrow>
        (case audioSamples ap of
           None \<Rightarrow> (length h, h @ [replicate 24 0])
         | Some a \<Rightarrow> (length h, h @ [h ! a])))"

text \<open>
  A caller that writes \<^verbatim>\<open>v[i] = x\<close> into a slice it holds; \<open>None\<close> when the index
  is out of range.
\<close>

definition writeSlice :: "nat \<Rightarrow> nat \<Rightarrow> real \<Rightarrow> store \<Rightarrow> store option" where
  "writeSlice a i x h =
     (if a < length h \<and> i < length (h ! a) then Some (h[a := (h ! a)[i := x]]) else None)"

subsection \<open>The radio library\<close>

record RadioLibrary =
  stations :: "RadioStation list"
  filePath :: string

text \<open>
  What the library asks of the outside: \<^verbatim>\<open>http.Get\<close>, answering with the status code
  and the lines that the scanner yields from the body (closing the body is part of
  it), and \<^verbatim>\<open>Save\<close>, which marshals the stations and writes the file.
\<close>

record 'w libEnv =
  envGet :: "string \<Rightarrow> 'w \<Rightarrow> (error + int \<times> string list) \<times> 'w"
  envSave :: "RadioLibrary \<Rightarrow> 'w \<Rightarrow> error option \<times> 'w"

definition ioGet :: "'w libEnv \<Rightarrow> string \<Rightarrow> 'w io \<Rightarrow> (error + int \<times> string list) \<times> 'w io" where
  "ioGet e url st =
     (let (r, w) = envGet e url (world st)
      in (r, \<lparr>world = w, trace = trace st @ [EvGet url]\<rparr>))"

definition Save :: "'w libEnv \<Rightarrow> RadioLibrary \<Rightarrow> 'w io \<Rightarrow> error option \<times> 'w io" where
  "Save e rl st =
     (let (r, w) = envSave e rl (world st)
      in (r, \<lparr>world = w, trace = trace st @ [EvSave]\<rparr>))"

text \<open>The loops of \<^verbatim>\<open>parsePLS\<close> and \<^verbatim>\<open>parseM3U\<close> over the scanner's lines.\<close>

fun plsLoop :: "string list \<Rightarrow> string list \<Rightarrow> string list" where
  "plsLoop [] urls = urls"
| "plsLoop (text # rest) urls =
     (let line = TrimSpace text
      in if HasPrefix line ''File'' \<and> Contains line ''=''
         then (let parts = SplitN2 line
               in if length parts = 2 \<and> HasPrefix (parts ! 1) ''http''
                  then plsLoop rest (urls @ [parts ! 1])
                  else plsLoop rest urls)
         else plsLoop rest urls)"

definition parsePLS :: "string list \<Rightarrow> error + string list" where
  "parsePLS scanner =
     (let urls = plsLoop scanner []
      in if length urls = 0 then Inl NoStreamURLsInPLS else Inr urls)"

fun m3uLoop :: "string list \<Rightarrow> string list \<Rightarrow> string list" where
  "m3uLoop [] urls = urls"
| "m3uLoop (text # rest) urls =
     (let line = TrimSpace text
      in if line \<noteq> [] \<and> \<not> HasPrefix line ''#'' \<and> HasPrefix line ''http''
         then m3uLoop rest (urls @ [line])
         else m3uLoop rest urls)"

definition parseM3U :: "string list \<Rightarrow> error + string list" where
  "parseM3U scanner =
     (let urls = m3uLoop scanner []
      in if length urls = 0 then Inl NoStreamURLsInM3U else Inr urls)"

definition resolvePlaylistURL ::
  "'w libEnv \<Rightarrow> string \<Rightarrow> 'w io \<Rightarrow> (error + string list) \<times> 'w io" where
  "resolvePlaylistURL e playlistURL st =
     (case ioGet e playlistURL st of
        (Inl err, st1) \<Rightarrow> (Inl (FailedToFetchPlaylist err), st1)
      | (Inr (status, scanner), st1) \<Rightarrow>
          if status \<noteq> 200 then (Inl (FetchPlaylistStatus status), st1)
          else if Contains playlistURL ''.pls'' then (parsePLS scanner, st1)
          else if Contains playlistURL ''.m3u'' then (parseM3U scanner, st1)
          else (Inl UnsupportedPlaylistFormat, st1))"

text \<open>
  \<^verbatim>\<open>AddStation\<close>; \<open>now\<close> is the reading of \<^verbatim>\<open>time.Now()\<close>. The outer \<open>None\<close> is the
  panic of \<^verbatim>\<open>streamURLs[0]\<close> on an empty list.
\<close>

definition AddStation ::
  "'w libEnv \<Rightarrow> int \<Rightarrow> RadioStation \<Rightarrow> RadioLibrary \<times> 'w io \<Rightarrow>
   (error option \<times> RadioLibrary \<times> 'w io) option" where
  "AddStation e now station0 st =
     (case st of (rl, w) \<Rightarrow>
        (let station = station0\<lparr>AddedAt := now\<rparr>
         in if Contains (URL station) ''.pls'' \<or> Contains (URL station) ''.m3u''
            then (case resolvePlaylistURL e (URL station) w of
                    (Inl err, w1) \<Rightarrow> Some (Some (FailedToResolvePlaylist err), rl, w1)
                  | (Inr streamURLs, w1) \<Rightarrow>
                      (case streamURLs of
                         [] \<Rightarrow> None
                       | u # _ \<Rightarrow>
                           (let station1 = station\<lparr>StreamURLs := streamURLs, StreamURL := u\<rparr>;
                                rl1 = rl\<lparr>stations := stations rl @ [station1]\<rparr>
                            in (case Save e rl1 w1 of (r, w2) \<Rightarrow> Some (r, rl1, w2)))))
            else (let station1 = station\<lparr>StreamURL := URL station, StreamURLs := [URL station]\<rparr>;
                      rl1 = rl\<lparr>stations := stations rl @ [station1]\<rparr>
                  in (case Save e rl1 w of (r, w2) \<Rightarrow> Some (r, rl1, w2)))))"

subsection \<open>The claim about the fallback, in its own words\<close>

text \<open>
  Stated from the specification: the candidates are tried in list order, each from the
  state that the one before it left, and nothing is tried after the first that plays.
  An entry holds the candidate, the result of \<^verbatim>\<open>playDirectly\<close> on it and the state
  after it.
\<close>

fun attemptsInOrder ::
  "('w, 'rd, 'src) env \<Rightarrow> Time \<Rightarrow> string list \<Rightarrow> ('rd, 'src) AudioPlayer \<times> 'w io \<Rightarrow>
   (string \<times> error option \<times> ('rd, 'src) AudioPlayer \<times> 'w io) list" where
  "attemptsInOrder e now [] st = []"
| "attemptsInOrder e now (url # urls) st =
     (case playDirectly e now url st of
        (None, st1) \<Rightarrow> [(url, None, st1)]
      | (Some err, st1) \<Rightarrow> (url, Some err, st1) # attemptsInOrder e now urls st1)"

subsection \<open>Test doubles\<close>

text \<open>
  An outside in which the requests to the URLs of \<open>bad\<close> are refused and every other
  request, open and decode succeeds; a reader and a decoded stream are named by the
  path they come from.
\<close>

definition stubEnv :: "string list \<Rightarrow> (unit, string, string) env" where
  "stubEnv bad =
     \<lparr>envNewRequest = (\<lambda>url. None),
      envDo = (\<lambda>url w.
        (if url \<in> set bad then Inl (External ''connection refused'')
         else Inr \<lparr>StatusCode = 200, Status = ''200 OK'', ContentType = ''audio/mpeg'',
                   Body = url\<rparr>, w)),
      envOpen = (\<lambda>path w. (Inr path, w)),
      envDecode = (\<lambda>c rd w. (Inr rd, w)),
      envClose = (\<lambda>rd w. w),
      envCloseStream = (\<lambda>s w. w)\<rparr>"

definition io0 :: "unit io" where
  "io0 = \<lparr>world = (), trace = []\<rparr>"

text \<open>
  A source of fixed amplitude \<open>a\<close>: it fills the whole buffer with \<open>a\<close> on both
  channels and never ends or fails.
\<close>

definition toneOps :: "real \<Rightarrow> 'src streamerOps" where
  "toneOps a =
     \<lparr>opStream = (\<lambda>src samples.
        ((replicate (length samples) (a, a), int (length samples), True), src)),
      opErr = (\<lambda>src. None)\<rparr>"

text \<open>A library outside that serves the given lines with status 200 and saves without error.\<close>

definition stubLib :: "string list \<Rightarrow> unit libEnv" where
  "stubLib body =
     \<lparr>envGet = (\<lambda>url w. (Inr (200, body), w)),
      envSave = (\<lambda>rl w. (None, w))\<rparr>"

subsection \<open>The claim about the progress, in its own words\<close>

text \<open>Stated from the specification: a value clamped into the interval from 0 to 1.\<close>

fun clamp01 :: "float64 \<Rightarrow> float64" where
  "clamp01 (Num x) = Num (max 0 (min 1 x))"
| "clamp01 PosInf = Num 1"
| "clamp01 NegInf = Num 0"
| "clamp01 NaN = NaN"

subsection \<open>The claims about manifests, in their own words\<close>

text \<open>
  Stated from the specification: the URL ends with one of the manifest suffixes. (For a
  URL without query and fragment this is its path ending with the suffix.)
\<close>

definition endsWithManifestSuffix :: "string \<Rightarrow> bool" where
  "endsWithManifestSuffix url = (suffix ''.pls'' url \<or> suffix ''.m3u'' url \<or> suffix ''.m3u8'' url)"


text \<open>A station as the quick-add form builds it, and an empty library.\<close>

definition stationAt :: "string \<Rightarrow> RadioStation" where
  "stationAt url =
     \<lparr>Name = ''Quick Station'', URL = url, StreamURL = [], StreamURLs = [], Genre = [],
      Language = [], Country = [], Bitrate = [], Description = [], Tags = [],
      Metadata = Map.empty, AddedAt = 0, LastPlayed = 0\<rparr>"

definition emptyLibrary :: RadioLibrary where
  "emptyLibrary = \<lparr>stations = [], filePath = ''radio_stations.json''\<rparr>"

subsection \<open>Runs of the player\<close>

text \<open>
  The operations that the user interface and the audio thread apply to one player, one
  at a time: the controls, the completion callback of a session (with the stream and
  the reader it closes), a pull of the audio thread through a sample tap (which tap and which buffer
  is left open, so that every interleaving with the controls is a run), a call of
  \<^verbatim>\<open>GetAudioSamples\<close>, and a caller's write into a slice that \<^verbatim>\<open>GetAudioSamples\<close>
  returned to it.
\<close>

datatype ('rd, 'src) cmd =
    CmdPlay Time string
  | CmdPlayRadioStation Time "RadioStation option"
  | CmdPause Time Time
  | CmdResume Time
  | CmdTogglePause Time Time
  | CmdStop
  | CmdSetDuration float64
  | CmdFinish 'src 'rd
  | CmdStream "'src SampleCaptureStreamer" "frame list"
  | CmdGetAudioSamples
  | CmdWrite nat nat real

text \<open>\<open>sysHeld\<close> lists the addresses of the slices that callers hold.\<close>

record ('w, 'rd, 'src) system =
  sysPlayer :: "('rd, 'src) AudioPlayer"
  sysIO :: "'w io"
  sysStore :: store
  sysHeld :: "nat list"

definition initialSystem :: "'w \<Rightarrow> ('w, 'rd, 'src) system" where
  "initialSystem w =
     \<lparr>sysPlayer = NewAudioPlayer, sysIO = \<lparr>world = w, trace = []\<rparr>, sysStore = [], sysHeld = []\<rparr>"

text \<open>One operation; \<open>None\<close> when it panics or when a caller writes into a slice it does not hold.\<close>

fun step ::
  "'src streamerOps \<Rightarrow> ('w, 'rd, 'src) env \<Rightarrow> ('rd, 'src) cmd \<Rightarrow>
   ('w, 'rd, 'src) system \<Rightarrow> ('w, 'rd, 'src) system option" where
  "step ops e (CmdPlay now path) sys =
     (case Play e now path (sysPlayer sys, sysIO sys) of
        (r, ap, w) \<Rightarrow> Some (sys\<lparr>sysPlayer := ap, sysIO := w\<rparr>))"
| "step ops e (CmdPlayRadioStation now station) sys =
     (case PlayRadioStation e now station (sysPlayer sys, sysIO sys) of
        (r, ap, w) \<Rightarrow> Some (sys\<lparr>sysPlayer := ap, sysIO := w\<rparr>))"
| "step ops e (CmdPause now now') sys = Some (sys\<lparr>sysPlayer := Pause now now' (sysPlayer sys)\<rparr>)"
| "step ops e (CmdResume now) sys = Some (sys\<lparr>sysPlayer := Resume now (sysPlayer sys)\<rparr>)"
| "step ops e (CmdTogglePause now now') sys =
     Some (sys\<lparr>sysPlayer := TogglePause now now' (sysPlayer sys)\<rparr>)"
| "step ops e CmdStop sys = Some (sys\<lparr>sysPlayer := Stop (sysPlayer sys)\<rparr>)"
| "step ops e (CmdSetDuration d) sys = Some (sys\<lparr>sysPlayer := SetDuration d (sysPlayer sys)\<rparr>)"
| "step ops e (CmdFinish s rd) sys =
     (case completionCallback e s rd (sysPlayer sys, sysIO sys) of
        (ap, w) \<Rightarrow> Some (sys\<lparr>sysPlayer := ap, sysIO := w\<rparr>))"
| "step ops e (CmdStream t samples) sys =
     (case Stream ops samples (t, sysPlayer sys, sysStore sys) of
        None \<Rightarrow> None
      | Some (r, t1, ap, h) \<Rightarrow> Some (sys\<lparr>sysPlayer := ap, sysStore := h\<rparr>))"
| "step ops e CmdGetAudioSamples sys =
     (case GetAudioSamples (sysPlayer sys, sysStore sys) of
        (a, h) \<Rightarrow> Some (sys\<lparr>sysStore := h, sysHeld := a # sysHeld sys\<rparr>))"
| "step ops e (CmdWrite a i x) sys =
     (if a \<in> set (sysHeld sys)
      then (case writeSlice a i x (sysStore sys) of
              None \<Rightarrow> None
            | Some h \<Rightarrow> Some (sys\<lparr>sysStore := h\<rparr>))
      else None)"

fun run ::
  "'src streamerOps \<Rightarrow> ('w, 'rd, 'src) env \<Rightarrow> ('rd, 'src) cmd list \<Rightarrow>
   ('w, 'rd, 'src) system \<Rightarrow> ('w, 'rd, 'src) system option" where
  "run ops e [] sys = Some sys"
| "run ops e (c # cs) sys =
     (case step ops e c sys of None \<Rightarrow> None | Some sys1 \<Rightarrow> run ops e cs sys1)"

fun isStream :: "('rd, 'src) cmd \<Rightarrow> bool" where
  "isStream (CmdStream t samples) = True"
| "isStream c = False"

text \<open>
  What every run keeps: the snapshot of the player, when there is one, is an array of
  the store that no caller holds, with 24 values, none negative; and callers hold
  arrays of the store.
\<close>

definition snapshotOK :: "('w, 'rd, 'src) system \<Rightarrow> bool" where
  "snapshotOK sys =
     ((case audioSamples (sysPlayer sys) of
         None \<Rightarrow> True
       | Some a \<Rightarrow>
           a < length (sysStore sys) \<and> a \<notin> set (sysHeld sys) \<and>
           length (sysStore sys ! a) = 24 \<and> list_all (\<lambda>x. 0 \<le> x) (sysStore sys ! a)) \<and>
      list_all (\<lambda>a. a < length (sysStore sys)) (sysHeld sys))"

section \<open>Properties\<close>

subsection \<open>Evaluation and arithmetic helpers\<close>

lemmas eval_strings = isURL_def isFileSupported_def HasPrefix_def Ext_def ToLower_def lowerChar_def

lemmas eval_play = Play_def playWithFallback_def playDirectly_def decodeAndInstall_def
  ioDo_def ioOpen_def ioDecode_def ioClose_def stubEnv_def io0_def Let_def

lemma wrap64_id: "minDuration \<le> x \<Longrightarrow> x \<le> maxDuration \<Longrightarrow> wrap64 x = x"
  by (simp add: wrap64_def minDuration_def maxDuration_def)

lemma Since_diff: "minDuration \<le> now - t \<Longrightarrow> now - t \<le> maxDuration \<Longrightarrow> Since now t = now - t"
  by (simp add: Since_def Let_def)

subsection \<open>A successful play installs a session\<close>

lemma decodeAndInstall_ok:
  "decodeAndInstall e now p c rd (ap, w) = (None, ap1, w1) \<Longrightarrow>
     \<exists>s. ap1 = installSession now p s rd ap"
  by (auto simp: decodeAndInstall_def split: prod.splits sum.splits)

lemma playDirectly_ok:
  "playDirectly e now p (ap, w) = (None, ap1, w1) \<Longrightarrow>
     \<exists>s rd. ap1 = installSession now p s rd ap"
  by (auto simp: playDirectly_def Let_def split: if_splits option.splits prod.splits sum.splits
      dest!: decodeAndInstall_ok)

lemma fallbackLoop_ok:
  "fallbackLoop e now urls le st = (None, ap1, w1) \<Longrightarrow>
     \<exists>u s rd ap0. ap1 = installSession now u s rd ap0"
proof (induction urls arbitrary: le st)
  case Nil
  then show ?case by simp
next
  case (Cons u us)
  obtain r ap' w' where r: "playDirectly e now u st = (r, ap', w')"
    by (metis prod_cases3)
  show ?case
  proof (cases r)
    case None
    with Cons.prems r have "ap1 = ap'" by simp
    moreover obtain ap0 w0 where "st = (ap0, w0)" by (cases st)
    ultimately show ?thesis using r None playDirectly_ok by blast
  next
    case (Some err)
    with Cons.prems r have "fallbackLoop e now us (Some err) (ap', w') = (None, ap1, w1)" by simp
    then show ?thesis by (rule Cons.IH)
  qed
qed

lemma Play_ok:
  assumes "Play e now p st = (None, ap1, w1)"
  shows "\<exists>u s rd ap0. ap1 = installSession now u s rd ap0"
proof -
  obtain ap w where st: "st = (ap, w)" by (cases st)
  show ?thesis
  proof (cases "isURL p")
    case True
    with assms st have "fallbackLoop e now [p] None (Stop ap, w) = (None, ap1, w1)"
      by (simp add: Play_def playWithFallback_def)
    then show ?thesis by (rule fallbackLoop_ok)
  next
    case False
    with assms st have "playDirectly e now p (Stop ap, w) = (None, ap1, w1)"
      by (simp add: Play_def split: if_splits)
    then show ?thesis using playDirectly_ok by blast
  qed
qed

subsection \<open>Position\<close>

lemma GetPosition_stopped: "\<not> isPlaying ap \<Longrightarrow> \<not> isPaused ap \<Longrightarrow> GetPosition now ap = Num 0"
  by (simp add: GetPosition_def)

lemma GetPosition_paused: "isPaused ap \<Longrightarrow> GetPosition now ap = Seconds (pausedTime ap)"
  by (simp add: GetPosition_def)

lemma GetPosition_playing:
  assumes "isPlaying ap" "\<not> isPaused ap"
    and "minDuration \<le> now - startTime ap" "now - startTime ap \<le> maxDuration"
    and "minDuration \<le> pausedTime ap + (now - startTime ap)"
    and "pausedTime ap + (now - startTime ap) \<le> maxDuration"
  shows "GetPosition now ap = Seconds (pausedTime ap + (now - startTime ap))"
  using assms by (simp add: GetPosition_def Since_diff wrap64_id)

lemma session_pause_resume:
  assumes "0 \<le> t0" "t0 \<le> t1" "t2 \<le> t3" "t3 \<le> maxDuration" "t1 \<le> t2"
  shows "GetPosition t3 (Resume t2 (Pause t1 t1' (installSession t0 u s rd ap0))) =
         Seconds ((t1 - t0) + (t3 - t2))"
proof -
  have m: "minDuration \<le> 0" by (simp add: minDuration_def)
  have a: "Since t1 t0 = t1 - t0" using assms m by (intro Since_diff) linarith+
  have b: "Since t3 t2 = t3 - t2" using assms m by (intro Since_diff) linarith+
  have c: "wrap64 (t1 - t0) = t1 - t0" using assms m by (intro wrap64_id) linarith+
  have d: "wrap64 (t1 - t0 + (t3 - t2)) = t1 - t0 + (t3 - t2)"
    using assms m by (intro wrap64_id) linarith+
  show ?thesis
    by (simp add: GetPosition_def Resume_def Pause_def installSession_def a b c d)
qed

text \<open>
  C1. \<^verbatim>\<open>GetPosition\<close> is 0 when the player is neither playing nor paused, the
  accumulated \<open>pausedTime\<close> when it is paused, and \<open>pausedTime\<close> plus the time since
  \<open>startTime\<close> when it is playing (for clock readings and durations that fit int64).
  For a session started by \<^verbatim>\<open>Play\<close> at \<open>t0\<close>, paused at \<open>t1\<close>, resumed at \<open>t2\<close> and
  asked at \<open>t3\<close>, the position is the time played, \<open>(t1 - t0) + (t3 - t2)\<close>, with
  \<^verbatim>\<open>Pause\<close>/\<^verbatim>\<open>Resume\<close> and with \<^verbatim>\<open>TogglePause\<close> alike: 2.0 s played, any time
  paused and 1.5 s played give 3.5 s.
\<close>

theorem position_tracking:
  assumes play: "Play e t0 path st = (None, ap1, w1)"
    and clock: "0 \<le> t0" "t0 \<le> t1" "t1 \<le> t2" "t2 \<le> t3" "t3 \<le> maxDuration"
  shows "(\<not> isPlaying ap \<and> \<not> isPaused ap \<longrightarrow> GetPosition now ap = Num 0) \<and>
         (isPaused ap \<longrightarrow> GetPosition now ap = Seconds (pausedTime ap)) \<and>
         (isPlaying ap \<and> \<not> isPaused ap \<and>
          minDuration \<le> now - startTime ap \<and> now - startTime ap \<le> maxDuration \<and>
          minDuration \<le> pausedTime ap + (now - startTime ap) \<and>
          pausedTime ap + (now - startTime ap) \<le> maxDuration \<longrightarrow>
            GetPosition now ap = Seconds (pausedTime ap + (now - startTime ap))) \<and>
         GetPosition t1 ap1 = Seconds (t1 - t0) \<and>
         GetPosition t2 (Pause t1 t1' ap1) = Seconds (t1 - t0) \<and>
         GetPosition t3 (Resume t2 (Pause t1 t1' ap1)) = Seconds ((t1 - t0) + (t3 - t2)) \<and>
         GetPosition t3 (TogglePause t2 t2' (TogglePause t1 t1' ap1)) =
           Seconds ((t1 - t0) + (t3 - t2)) \<and>
         (t1 = t0 + 2000000000 \<and> t3 = t2 + 1500000000 \<longrightarrow>
            GetPosition t3 (Resume t2 (Pause t1 t1' ap1)) = Num 3.5)"
proof -
  from Play_ok [OF play] obtain u s rd ap0 where ap1: "ap1 = installSession t0 u s rd ap0"
    by blast
  have m: "minDuration \<le> 0" by (simp add: minDuration_def)
  have a: "Since t1 t0 = t1 - t0" using clock m by (intro Since_diff) linarith+
  have c: "wrap64 (t1 - t0) = t1 - t0" using clock m by (intro wrap64_id) linarith+
  have pr: "GetPosition t3 (Resume t2 (Pause t1 t1' ap1)) = Seconds ((t1 - t0) + (t3 - t2))"
    unfolding ap1 using clock by (intro session_pause_resume) linarith+
  have tg: "TogglePause t2 t2' (TogglePause t1 t1' ap1) = Resume t2 (Pause t1 t1' ap1)"
    by (simp add: ap1 TogglePause_def Pause_def Resume_def installSession_def)
  have p1: "GetPosition t1 ap1 = Seconds (t1 - t0)"
    by (simp add: ap1 GetPosition_def installSession_def a c)
  have p2: "GetPosition t2 (Pause t1 t1' ap1) = Seconds (t1 - t0)"
    by (simp add: ap1 GetPosition_def Pause_def installSession_def a c)
  have p3: "t1 = t0 + 2000000000 \<and> t3 = t2 + 1500000000 \<longrightarrow>
            GetPosition t3 (Resume t2 (Pause t1 t1' ap1)) = Num 3.5"
  proof
    assume "t1 = t0 + 2000000000 \<and> t3 = t2 + 1500000000"
    then have "(t1 - t0) + (t3 - t2) = 3500000000" by linarith
    then have "Seconds ((t1 - t0) + (t3 - t2)) = Num 3.5" by (simp add: Seconds_def)
    with pr show "GetPosition t3 (Resume t2 (Pause t1 t1' ap1)) = Num 3.5" by simp
  qed
  show ?thesis
    using pr p1 p2 p3
    by (simp add: tg GetPosition_stopped GetPosition_paused GetPosition_playing)
qed

theorem position_tracking_witness:
  "fst (Play (stubEnv []) 0 ''song.mp3'' (NewAudioPlayer, io0)) = None \<and>
   GetPosition 4500000000
     (Resume 3000000000 (Pause 2000000000 2000000001
        (fst (snd (Play (stubEnv []) 0 ''song.mp3'' (NewAudioPlayer, io0)))))) = Num 3.5"
proof -
  have ok: "fst (Play (stubEnv []) 0 ''song.mp3'' (NewAudioPlayer, io0)) = None"
    by (simp add: eval_play eval_strings)
  then have play: "Play (stubEnv []) 0 ''song.mp3'' (NewAudioPlayer, io0) =
      (None, fst (snd (Play (stubEnv []) 0 ''song.mp3'' (NewAudioPlayer, io0))),
       snd (snd (Play (stubEnv []) 0 ''song.mp3'' (NewAudioPlayer, io0))))"
    by (metis prod.collapse)
  have clock: "(0::int) \<le> 0" "(0::int) \<le> 2000000000" "(2000000000::int) \<le> 3000000000"
    "(3000000000::int) \<le> 4500000000" "4500000000 \<le> maxDuration"
    by (simp_all add: maxDuration_def)
  from position_tracking [OF play clock,
      of "NewAudioPlayer :: (string, string) AudioPlayer" 0 2000000001 0]
  have "GetPosition 4500000000
     (Resume 3000000000 (Pause 2000000000 2000000001
        (fst (snd (Play (stubEnv []) 0 ''song.mp3'' (NewAudioPlayer, io0)))))) = Num 3.5"
    by (simp add: Seconds_def)
  with ok show ?thesis by simp
qed

subsection \<open>Stop\<close>

text \<open>
  C8. After \<^verbatim>\<open>Stop\<close> the position is 0 and \<^verbatim>\<open>IsPlaying\<close> and \<^verbatim>\<open>IsPaused\<close> are
  false, and a second \<^verbatim>\<open>Stop\<close> changes no field of the player. \<^verbatim>\<open>Stop\<close> returns
  nothing and reaches nothing outside the player.
\<close>

theorem stop_queries_idempotent:
  "GetPosition now (Stop ap) = Num 0 \<and> \<not> IsPlaying (Stop ap) \<and> \<not> IsPaused (Stop ap) \<and>
   Stop (Stop ap) = Stop ap"
  by (simp add: GetPosition_def Stop_def IsPlaying_def IsPaused_def Let_def split: option.splits)

subsection \<open>Rejecting an unsupported file\<close>

text \<open>
  C10. \<^verbatim>\<open>Play\<close> on a path that is not a URL and whose extension is not one of .mp3,
  .wav, .flac, .ogg returns the unsupported-format error with the player, the world and
  the record of calls to the outside all unchanged: the check comes before the
  \<^verbatim>\<open>Stop\<close> of the session that is playing and before any open or request.
\<close>

theorem play_rejects_unsupported:
  assumes "\<not> isURL path" and "\<not> isFileSupported path"
  shows "Play e now path (ap, w) = (Some (UnsupportedFileFormat (Ext path)), ap, w)"
  using assms by (simp add: Play_def)

theorem play_rejects_unsupported_witness:
  "\<not> isURL ''notes.txt'' \<and> \<not> isFileSupported ''notes.txt'' \<and>
   isPlaying (installSession 0 ''song.mp3'' ''song.mp3'' ''song.mp3'' NewAudioPlayer) \<and>
   Play (stubEnv []) 5 ''notes.txt''
     (installSession 0 ''song.mp3'' ''song.mp3'' ''song.mp3'' NewAudioPlayer, io0) =
   (Some (UnsupportedFileFormat ''.txt''),
    installSession 0 ''song.mp3'' ''song.mp3'' ''song.mp3'' NewAudioPlayer, io0)"
proof -
  have a: "\<not> isURL ''notes.txt''" by (simp add: eval_strings)
  have b: "\<not> isFileSupported ''notes.txt''" by (simp add: eval_strings)
  have c: "Ext ''notes.txt'' = ''.txt''" by (simp add: Ext_def)
  have d: "isPlaying (installSession 0 ''song.mp3'' ''song.mp3'' ''song.mp3''
             (NewAudioPlayer :: (string, string) AudioPlayer))"
    by (simp add: installSession_def)
  show ?thesis
    using play_rejects_unsupported [OF a b, of "stubEnv []" 5
        "installSession 0 ''song.mp3'' ''song.mp3'' ''song.mp3'' NewAudioPlayer" io0] a b c d
    by simp
qed

subsection \<open>Fallback over the candidate URLs\<close>

lemma attempts_nonempty: "urls \<noteq> [] \<Longrightarrow> attemptsInOrder e now urls st \<noteq> []"
  by (cases urls) (auto split: prod.splits option.splits)

lemma attempts_candidates:
  "map fst (attemptsInOrder e now urls st) = take (length (attemptsInOrder e now urls st)) urls"
  by (induction urls arbitrary: st) (auto split: prod.splits option.splits)

lemma attempts_butlast_failed:
  "a \<in> set (butlast (attemptsInOrder e now urls st)) \<Longrightarrow> fst (snd a) \<noteq> None"
proof (induction urls arbitrary: st)
  case Nil
  then show ?case by simp
next
  case (Cons u us)
  obtain r st1 where r: "playDirectly e now u st = (r, st1)" by (cases "playDirectly e now u st")
  show ?case
  proof (cases r)
    case None
    with r Cons.prems show ?thesis by simp
  next
    case (Some err)
    with r have eq: "attemptsInOrder e now (u # us) st = (u, Some err, st1) # attemptsInOrder e now us st1"
      by simp
    show ?thesis
    proof (cases "attemptsInOrder e now us st1 = []")
      case True
      with eq Cons.prems show ?thesis by simp
    next
      case False
      with eq Cons.prems have "a = (u, Some err, st1) \<or> a \<in> set (butlast (attemptsInOrder e now us st1))"
        by simp
      then show ?thesis
      proof
        assume "a = (u, Some err, st1)"
        then show ?thesis by simp
      next
        assume "a \<in> set (butlast (attemptsInOrder e now us st1))"
        then show ?thesis by (rule Cons.IH)
      qed
    qed
  qed
qed

lemma attempts_chain:
  "Suc i < length (attemptsInOrder e now urls st) \<Longrightarrow>
     snd (attemptsInOrder e now urls st ! Suc i) =
       playDirectly e now (urls ! Suc i) (snd (snd (attemptsInOrder e now urls st ! i)))"
proof (induction urls arbitrary: st i)
  case Nil
  then show ?case by simp
next
  case (Cons u us)
  obtain r st1 where r: "playDirectly e now u st = (r, st1)" by (cases "playDirectly e now u st")
  show ?case
  proof (cases r)
    case None
    with r Cons.prems show ?thesis by simp
  next
    case (Some err)
    with r have eq: "attemptsInOrder e now (u # us) st = (u, Some err, st1) # attemptsInOrder e now us st1"
      by simp
    show ?thesis
    proof (cases i)
      case 0
      with eq Cons.prems have ne: "attemptsInOrder e now us st1 \<noteq> []" by auto
      then obtain u' us' where us: "us = u' # us'" by (cases us) auto
      show ?thesis using 0 eq us by (auto split: prod.splits option.splits)
    next
      case (Suc j)
      with eq Cons.prems have "Suc j < length (attemptsInOrder e now us st1)" by simp
      from Cons.IH [OF this] show ?thesis using Suc eq by simp
    qed
  qed
qed

lemma attempts_first:
  "urls \<noteq> [] \<Longrightarrow> snd (attemptsInOrder e now urls st ! 0) = playDirectly e now (urls ! 0) st"
  by (cases urls) (auto split: prod.splits option.splits)

lemma fallbackLoop_last:
  "urls \<noteq> [] \<Longrightarrow>
   (case last (attemptsInOrder e now urls st) of
      (u, None, st1) \<Rightarrow> fallbackLoop e now urls le st = (None, st1)
    | (u, Some err, st1) \<Rightarrow>
        length (attemptsInOrder e now urls st) = length urls \<and>
        fallbackLoop e now urls le st = (Some (AllStreamURLsFailed (Some err)), st1))"
proof (induction urls arbitrary: st le)
  case Nil
  then show ?case by simp
next
  case (Cons u us)
  obtain r st1 where r: "playDirectly e now u st = (r, st1)" by (cases "playDirectly e now u st")
  show ?case
  proof (cases r)
    case None
    with r show ?thesis by simp
  next
    case (Some err)
    with r have eq: "attemptsInOrder e now (u # us) st = (u, Some err, st1) # attemptsInOrder e now us st1"
      and lp: "fallbackLoop e now (u # us) le st = fallbackLoop e now us (Some err) st1"
      by simp_all
    show ?thesis
    proof (cases "us = []")
      case True
      with eq lp show ?thesis by simp
    next
      case False
      then have ne: "attemptsInOrder e now us st1 \<noteq> []" by (rule attempts_nonempty)
      from Cons.IH [OF False, where st = st1 and le = "Some err"] show ?thesis
        using eq lp ne by (simp split: prod.splits option.splits)
    qed
  qed
qed

text \<open>
  C2. For a non-empty candidate list, \<^verbatim>\<open>playWithFallback\<close> does what trying the
  candidates in list order does: the attempts made are on a non-empty initial segment of
  the list, the first from the given state and each later one from the state its
  predecessor left; every attempt but the last failed; when the last attempt played,
  the result is nil with the state that attempt left, so no later candidate was tried
  (the record of calls to the outside is part of that state); when the last attempt
  failed, every candidate was tried and the error wraps that last failure.
  \<^verbatim>\<open>Play\<close> on a URL is the fallback over the one-element list, and
  \<^verbatim>\<open>PlayRadioStation\<close> is the fallback over the station's stream URLs.
\<close>

theorem fallback_in_order:
  assumes "urls \<noteq> []"
  shows "attemptsInOrder e now urls st \<noteq> [] \<and>
         map fst (attemptsInOrder e now urls st) = take (length (attemptsInOrder e now urls st)) urls \<and>
         snd (attemptsInOrder e now urls st ! 0) = playDirectly e now (urls ! 0) st \<and>
         (\<forall>i. Suc i < length (attemptsInOrder e now urls st) \<longrightarrow>
            snd (attemptsInOrder e now urls st ! Suc i) =
              playDirectly e now (urls ! Suc i) (snd (snd (attemptsInOrder e now urls st ! i)))) \<and>
         (\<forall>a \<in> set (butlast (attemptsInOrder e now urls st)). fst (snd a) \<noteq> None) \<and>
         (case last (attemptsInOrder e now urls st) of
            (u, None, st1) \<Rightarrow> playWithFallback e now urls st = (None, st1)
          | (u, Some err, st1) \<Rightarrow>
              length (attemptsInOrder e now urls st) = length urls \<and>
              playWithFallback e now urls st = (Some (AllStreamURLsFailed (Some err)), st1)) \<and>
         (isURL path \<longrightarrow> Play e now path (ap, w) = playWithFallback e now [path] (Stop ap, w)) \<and>
         (StreamURLs station \<noteq> [] \<longrightarrow>
            PlayRadioStation e now (Some station) st = playWithFallback e now (StreamURLs station) st)"
proof -
  have l: "case last (attemptsInOrder e now urls st) of
            (u, None, st1) \<Rightarrow> playWithFallback e now urls st = (None, st1)
          | (u, Some err, st1) \<Rightarrow>
              length (attemptsInOrder e now urls st) = length urls \<and>
              playWithFallback e now urls st = (Some (AllStreamURLsFailed (Some err)), st1)"
    unfolding playWithFallback_def by (rule fallbackLoop_last [OF assms])
  have p: "isURL path \<longrightarrow> Play e now path (ap, w) = playWithFallback e now [path] (Stop ap, w)"
    by (simp add: Play_def)
  have r: "StreamURLs station \<noteq> [] \<longrightarrow>
            PlayRadioStation e now (Some station) st = playWithFallback e now (StreamURLs station) st"
    by (simp add: PlayRadioStation_def)
  have b: "\<forall>a \<in> set (butlast (attemptsInOrder e now urls st)). fst (snd a) \<noteq> None"
    using attempts_butlast_failed by blast
  have c: "\<forall>i. Suc i < length (attemptsInOrder e now urls st) \<longrightarrow>
            snd (attemptsInOrder e now urls st ! Suc i) =
              playDirectly e now (urls ! Suc i) (snd (snd (attemptsInOrder e now urls st ! i)))"
    using attempts_chain by blast
  show ?thesis
    using attempts_nonempty [OF assms, of e now st] attempts_first [OF assms, of e now st]
      attempts_candidates [of e now urls st] l p r b c
    by blast
qed

theorem fallback_in_order_witness:
  "map fst (attemptsInOrder (stubEnv [''http://a/1'', ''http://b/2'']) 7
      [''http://a/1'', ''http://b/2'', ''http://c/3'', ''http://d/4''] (NewAudioPlayer, io0)) =
     [''http://a/1'', ''http://b/2'', ''http://c/3''] \<and>
   fst (playWithFallback (stubEnv [''http://a/1'', ''http://b/2'']) 7
      [''http://a/1'', ''http://b/2'', ''http://c/3'', ''http://d/4''] (NewAudioPlayer, io0)) = None \<and>
   trace (snd (snd (playWithFallback (stubEnv [''http://a/1'', ''http://b/2'']) 7
      [''http://a/1'', ''http://b/2'', ''http://c/3'', ''http://d/4''] (NewAudioPlayer, io0)))) =
     [EvDo ''http://a/1'', EvDo ''http://b/2'', EvDo ''http://c/3'', EvDecode MP3] \<and>
   playWithFallback (stubEnv [''http://a/1'', ''http://b/2'']) 7
      [''http://a/1'', ''http://b/2''] (NewAudioPlayer, io0) =
     (Some (AllStreamURLsFailed (Some (FailedToConnect (External ''connection refused'')))),
      NewAudioPlayer, \<lparr>world = (), trace = [EvDo ''http://a/1'', EvDo ''http://b/2'']\<rparr>)"
proof -
  have ne: "[''http://a/1'', ''http://b/2'', ''http://c/3'', ''http://d/4''] \<noteq> []" by simp
  have at: "map fst (attemptsInOrder (stubEnv [''http://a/1'', ''http://b/2'']) 7
      [''http://a/1'', ''http://b/2'', ''http://c/3'', ''http://d/4''] (NewAudioPlayer, io0)) =
     [''http://a/1'', ''http://b/2'', ''http://c/3'']"
    by (simp add: eval_play eval_strings)
  show ?thesis
    using fallback_in_order [OF ne, of "stubEnv [''http://a/1'', ''http://b/2'']" 7
        "(NewAudioPlayer, io0)" "''http://c/3''" "NewAudioPlayer" io0
        "\<lparr>Name = [], URL = [], StreamURL = [], StreamURLs = [''http://c/3''], Genre = [],
          Language = [], Country = [], Bitrate = [], Description = [], Tags = [],
          Metadata = Map.empty, AddedAt = 0, LastPlayed = 0\<rparr>"] at
    by (simp add: eval_play eval_strings)
qed

subsection \<open>Progress\<close>

lemma GetPosition_Num: "\<exists>p. GetPosition now ap = Num p"
proof (cases "\<not> isPlaying ap \<and> \<not> isPaused ap")
  case True
  then have "GetPosition now ap = Num 0" by (simp add: GetPosition_def)
  then show ?thesis by (rule exI)
next
  case False
  then have "GetPosition now ap =
      Num (real_of_int (if isPaused ap then pausedTime ap
                        else wrap64 (pausedTime ap + Since now (startTime ap))) / 10 ^ 9)"
    unfolding GetPosition_def Seconds_def by (simp only: if_False)
  then show ?thesis by (rule exI)
qed

lemma progress_cases:
  assumes pos: "GetPosition now ap = Num p"
  shows "duration ap = Num d \<Longrightarrow> d \<le> 0 \<Longrightarrow> GetProgress now ap = Num 0"
    and "duration ap = NegInf \<Longrightarrow> GetProgress now ap = Num 0"
    and "duration ap = PosInf \<Longrightarrow> GetProgress now ap = Num 0"
    and "duration ap = Num d \<Longrightarrow> 0 < d \<Longrightarrow> GetProgress now ap = Num (max 0 (min 1 (p / d)))"
    and "duration ap = NaN \<Longrightarrow> GetProgress now ap = NaN"
  using pos by (auto simp: GetProgress_def GetDuration_def Let_def fgt_def max_def min_def)

text \<open>
  C3 (amended). For every player state whose duration is not NaN: when the duration is
  at most 0 the progress is 0 whatever the position; otherwise the progress is the
  position divided by the duration, clamped into the interval from 0 to 1; the progress
  is always a number between 0 and 1, and it is exactly 1 when the position exceeds a
  positive duration.
\<close>

theorem progress_clamped:
  assumes "duration ap \<noteq> NaN"
  shows "(fle (GetDuration ap) (Num 0) \<longrightarrow> GetProgress now ap = Num 0) \<and>
         (\<not> fle (GetDuration ap) (Num 0) \<longrightarrow>
            GetProgress now ap = clamp01 (fdiv (GetPosition now ap) (GetDuration ap))) \<and>
         (\<exists>q. GetProgress now ap = Num q \<and> 0 \<le> q \<and> q \<le> 1) \<and>
         (\<not> fle (GetDuration ap) (Num 0) \<and> fgt (GetPosition now ap) (GetDuration ap) \<longrightarrow>
            GetProgress now ap = Num 1) \<and>
         (\<forall>p d. GetPosition now ap = Num p \<and> duration ap = Num d \<and> 0 < d \<longrightarrow>
            GetProgress now ap = Num (max 0 (min 1 (p / d))))"
proof -
  obtain p where pos: "GetPosition now ap = Num p" using GetPosition_Num by blast
  show ?thesis
  proof (cases "duration ap")
    case (Num d)
    show ?thesis
    proof (cases "d \<le> 0")
      case True
      with Num pos progress_cases(1) [OF pos Num] show ?thesis
        by (simp add: GetDuration_def)
    next
      case False
      then have d: "0 < d" by simp
      from progress_cases(4) [OF pos Num d] Num pos d show ?thesis
        by (auto simp: GetDuration_def fgt_def max_def min_def)
    qed
  next
    case PosInf
    with pos progress_cases(3) [OF pos PosInf] show ?thesis
      by (simp add: GetDuration_def fgt_def)
  next
    case NegInf
    with pos progress_cases(2) [OF pos NegInf] show ?thesis
      by (simp add: GetDuration_def)
  next
    case NaN
    with assms show ?thesis by simp
  qed
qed

lemma playing_song:
  "fst (snd (Play (stubEnv []) 0 ''song.mp3'' (NewAudioPlayer, io0))) =
   installSession 0 ''song.mp3'' ''song.mp3'' ''song.mp3'' (Stop NewAudioPlayer)"
  by (simp add: eval_play eval_strings)

theorem progress_clamped_witness:
  "duration (SetDuration (Num 180)
      (fst (snd (Play (stubEnv []) 0 ''song.mp3'' (NewAudioPlayer, io0))))) \<noteq> NaN \<and>
   GetPosition 200000000000 (SetDuration (Num 180)
      (fst (snd (Play (stubEnv []) 0 ''song.mp3'' (NewAudioPlayer, io0))))) = Num 200 \<and>
   GetProgress 200000000000 (SetDuration (Num 180)
      (fst (snd (Play (stubEnv []) 0 ''song.mp3'' (NewAudioPlayer, io0))))) = Num 1 \<and>
   GetProgress 200000000000 (SetDuration (Num 0)
      (fst (snd (Play (stubEnv []) 0 ''song.mp3'' (NewAudioPlayer, io0))))) = Num 0"
proof -
  let ?ap = "fst (snd (Play (stubEnv []) 0 ''song.mp3'' (NewAudioPlayer, io0)))"
  have a: "duration (SetDuration (Num 180) ?ap) \<noteq> NaN" by (simp add: SetDuration_def)
  have b: "duration (SetDuration (Num 0) ?ap) \<noteq> NaN" by (simp add: SetDuration_def)
  have w: "wrap64 200000000000 = 200000000000"
    by (rule wrap64_id) (simp_all add: minDuration_def maxDuration_def)
  have s: "Since 200000000000 0 = 200000000000"
    by (simp add: Since_def Let_def minDuration_def maxDuration_def)
  have p: "GetPosition 200000000000 (SetDuration (Num 180) ?ap) = Num 200"
    by (simp add: playing_song GetPosition_def SetDuration_def installSession_def w s Seconds_def)
  have g: "fgt (Num 200) (Num 180)" by (simp add: fgt_def)
  from progress_clamped [OF a, of 200000000000] p g
  have "GetProgress 200000000000 (SetDuration (Num 180) ?ap) = Num 1"
    by (simp add: GetDuration_def SetDuration_def)
  moreover from progress_clamped [OF b, of 200000000000]
  have "GetProgress 200000000000 (SetDuration (Num 0) ?ap) = Num 0"
    by (simp add: GetDuration_def SetDuration_def)
  ultimately show ?thesis using a p by simp
qed

text \<open>
  The claim as stated fails for a duration that is NaN: a song is playing, one second
  has passed, \<^verbatim>\<open>SetDuration\<close> was given NaN; the test \<^verbatim>\<open>duration <= 0\<close> is false, the
  quotient is NaN, both clamping comparisons are false, and the progress is NaN.
\<close>

theorem progress_nan_counterexample:
  "GetPosition 1000000000 (SetDuration NaN
      (fst (snd (Play (stubEnv []) 0 ''song.mp3'' (NewAudioPlayer, io0))))) = Num 1 \<and>
   \<not> fle (GetDuration (SetDuration NaN
      (fst (snd (Play (stubEnv []) 0 ''song.mp3'' (NewAudioPlayer, io0)))))) (Num 0) \<and>
   GetProgress 1000000000 (SetDuration NaN
      (fst (snd (Play (stubEnv []) 0 ''song.mp3'' (NewAudioPlayer, io0))))) = NaN"
proof -
  have w: "wrap64 1000000000 = 1000000000"
    by (rule wrap64_id) (simp_all add: minDuration_def maxDuration_def)
  have s: "Since 1000000000 0 = 1000000000"
    by (simp add: Since_def Let_def minDuration_def maxDuration_def)
  show ?thesis
    by (simp add: playing_song GetProgress_def GetPosition_def GetDuration_def SetDuration_def
        installSession_def w s Seconds_def fgt_def)
qed

subsection \<open>Playlist manifests\<close>

lemma Contains_sublist: "Contains s sub \<longleftrightarrow> sublist sub s"
  by (induction s) (auto simp: sublist_Cons_right)


lemma suffix_manifest_contains:
  assumes "endsWithManifestSuffix url"
  shows "Contains url ''.pls'' \<or> Contains url ''.m3u''"
proof -
  have "sublist ''.m3u'' ''.m3u8''" by simp
  then have "suffix ''.m3u8'' url \<Longrightarrow> sublist ''.m3u'' url"
    using suffix_imp_sublist sublist_order.order.trans by blast
  with assms show ?thesis
    unfolding endsWithManifestSuffix_def Contains_sublist
    using suffix_imp_sublist by blast
qed








lemmas eval_trim = TrimSpace_def spaceEncodings_def stripOne_def




lemma parsePLS_nonempty: "parsePLS ls = Inr urls \<Longrightarrow> urls \<noteq> []"
  by (auto simp: parsePLS_def Let_def split: if_splits)

lemma parseM3U_nonempty: "parseM3U ls = Inr urls \<Longrightarrow> urls \<noteq> []"
  by (auto simp: parseM3U_def Let_def split: if_splits)

lemma resolvePlaylistURL_trace:
  "resolvePlaylistURL e u w = (r, w1) \<Longrightarrow> trace w1 = trace w @ [EvGet u]"
  by (auto simp: resolvePlaylistURL_def ioGet_def Let_def split: prod.splits sum.splits if_splits)

lemma resolvePlaylistURL_nonempty:
  "resolvePlaylistURL e u w = (Inr urls, w1) \<Longrightarrow> urls \<noteq> []"
  by (auto simp: resolvePlaylistURL_def ioGet_def Let_def
      split: prod.splits sum.splits if_splits dest: parsePLS_nonempty parseM3U_nonempty)

lemma Save_trace: "Save e rl w = (r, w1) \<Longrightarrow> trace w1 = trace w @ [EvSave]"
  by (auto simp: Save_def Let_def split: prod.splits)

lemma AddStation_direct:
  assumes "\<not> (Contains (URL station) ''.pls'' \<or> Contains (URL station) ''.m3u'')"
  shows "\<exists>err w'. AddStation e now station (rl, w) =
           Some (err, rl\<lparr>stations := stations rl @
                   [station\<lparr>AddedAt := now, StreamURL := URL station,
                            StreamURLs := [URL station]\<rparr>]\<rparr>, w') \<and>
         trace w' = trace w @ [EvSave]"
proof -
  obtain r w1 where s: "Save e (rl\<lparr>stations := stations rl @
                   [station\<lparr>AddedAt := now, StreamURL := URL station,
                            StreamURLs := [URL station]\<rparr>]\<rparr>) w = (r, w1)"
    by (metis surj_pair)
  from assms s have "AddStation e now station (rl, w) =
           Some (r, rl\<lparr>stations := stations rl @
                   [station\<lparr>AddedAt := now, StreamURL := URL station,
                            StreamURLs := [URL station]\<rparr>]\<rparr>, w1)"
    by (simp add: AddStation_def Let_def)
  with Save_trace [OF s] show ?thesis by blast
qed

lemma AddStation_manifest:
  assumes "Contains (URL station) ''.pls'' \<or> Contains (URL station) ''.m3u''"
  shows "\<exists>err rl' w'. AddStation e now station (rl, w) = Some (err, rl', w') \<and>
         prefix (trace w @ [EvGet (URL station)]) (trace w')"
proof -
  obtain r w1 where rs: "resolvePlaylistURL e (URL station) w = (r, w1)" by (metis surj_pair)
  note tr = resolvePlaylistURL_trace [OF rs]
  show ?thesis
  proof (cases r)
    case (Inl err)
    with assms rs have "AddStation e now station (rl, w) =
        Some (Some (FailedToResolvePlaylist err), rl, w1)"
      by (simp add: AddStation_def Let_def)
    with tr show ?thesis by simp
  next
    case (Inr urls)
    with rs resolvePlaylistURL_nonempty have "urls \<noteq> []" by blast
    then obtain x xs where urls: "urls = x # xs" by (cases urls) auto
    obtain r2 w2 where s: "Save e (rl\<lparr>stations := stations rl @
          [station\<lparr>AddedAt := now, StreamURLs := urls, StreamURL := x\<rparr>]\<rparr>) w1 = (r2, w2)"
      by (metis surj_pair)
    from assms rs Inr urls s have "AddStation e now station (rl, w) =
        Some (r2, rl\<lparr>stations := stations rl @
          [station\<lparr>AddedAt := now, StreamURLs := urls, StreamURL := x\<rparr>]\<rparr>, w2)"
      by (simp add: AddStation_def Let_def)
    moreover from Save_trace [OF s] tr have "trace w2 = trace w @ [EvGet (URL station)] @ [EvSave]"
      by simp
    ultimately show ?thesis by (simp add: prefix_def)
  qed
qed

text \<open>
  C4 (amended). \<^verbatim>\<open>AddStation\<close> always returns, and it treats the URL as a playlist
  manifest (fetches it, before anything else reaches the outside) if and only if the
  URL contains \<^verbatim>\<open>.pls\<close> or \<^verbatim>\<open>.m3u\<close> anywhere; every URL that ends with \<^verbatim>\<open>.pls\<close>,
  \<^verbatim>\<open>.m3u\<close> or \<^verbatim>\<open>.m3u8\<close> does. For every other URL nothing is fetched and the
  station is stored with the input URL as its stream URL and as its one-element
  candidate list.
\<close>

theorem manifest_by_substring:
  "\<exists>err rl' w'.
     AddStation e now station (rl, w) = Some (err, rl', w') \<and>
     (sublist ''.pls'' (URL station) \<or> sublist ''.m3u'' (URL station) \<longrightarrow>
        prefix (trace w @ [EvGet (URL station)]) (trace w')) \<and>
     (\<not> (sublist ''.pls'' (URL station) \<or> sublist ''.m3u'' (URL station)) \<longrightarrow>
        trace w' = trace w @ [EvSave] \<and>
        rl' = rl\<lparr>stations := stations rl @
                [station\<lparr>AddedAt := now, StreamURL := URL station,
                         StreamURLs := [URL station]\<rparr>]\<rparr>) \<and>
     (endsWithManifestSuffix (URL station) \<longrightarrow>
        sublist ''.pls'' (URL station) \<or> sublist ''.m3u'' (URL station))"
proof (cases "Contains (URL station) ''.pls'' \<or> Contains (URL station) ''.m3u''")
  case True
  from AddStation_manifest [OF True, of e now rl w] True show ?thesis
    unfolding Contains_sublist by blast
next
  case False
  from AddStation_direct [OF False, of e now rl w] False
    suffix_manifest_contains [of "URL station"]
  show ?thesis
    unfolding Contains_sublist by blast
qed

theorem manifest_by_substring_witness:
  "\<exists>err w'.
     AddStation (stubLib []) 5 (stationAt ''http://radio.example/live.mp3'') (emptyLibrary, io0) =
       Some (err,
             emptyLibrary\<lparr>stations :=
               [(stationAt ''http://radio.example/live.mp3'')
                  \<lparr>AddedAt := 5, StreamURL := ''http://radio.example/live.mp3'',
                   StreamURLs := [''http://radio.example/live.mp3'']\<rparr>]\<rparr>, w') \<and>
     trace w' = [EvSave]"
proof -
  have u: "URL (stationAt ''http://radio.example/live.mp3'') = ''http://radio.example/live.mp3''"
    by (simp add: stationAt_def)
  have n: "\<not> (sublist ''.pls'' ''http://radio.example/live.mp3'' \<or>
              sublist ''.m3u'' ''http://radio.example/live.mp3'')"
    by (simp add: sublist_code(3))
  have e: "stations emptyLibrary = []" "trace io0 = []" by (simp_all add: emptyLibrary_def io0_def)
  from manifest_by_substring [of "stubLib []" 5 "stationAt ''http://radio.example/live.mp3''"
      emptyLibrary io0] n
  show ?thesis unfolding u by (simp add: e) blast
qed

text \<open>
  The claim as stated fails for a URL that holds \<^verbatim>\<open>.pls\<close> in the middle: its path is
  \<^verbatim>\<open>/my.plsdir/stream.mp3\<close>, which ends with none of the suffixes, yet it is fetched
  and parsed as a PLS manifest and the station's candidates are the manifest's entries,
  not the input URL.
\<close>

theorem manifest_suffix_counterexample:
  "\<not> endsWithManifestSuffix ''http://radio.example/my.plsdir/stream.mp3'' \<and>
   AddStation (stubLib [''File1=http://s.example/1'']) 5
       (stationAt ''http://radio.example/my.plsdir/stream.mp3'') (emptyLibrary, io0) =
     Some (None,
           emptyLibrary\<lparr>stations :=
             [(stationAt ''http://radio.example/my.plsdir/stream.mp3'')
                \<lparr>AddedAt := 5, StreamURL := ''http://s.example/1'',
                 StreamURLs := [''http://s.example/1'']\<rparr>]\<rparr>,
           \<lparr>world = (), trace = [EvGet ''http://radio.example/my.plsdir/stream.mp3'', EvSave]\<rparr>)"
proof -
  have a: "\<not> endsWithManifestSuffix ''http://radio.example/my.plsdir/stream.mp3''"
    by (simp add: endsWithManifestSuffix_def suffix_to_prefix)
  have t: "TrimSpace ''File1=http://s.example/1'' = ''File1=http://s.example/1''"
    by (simp add: eval_trim)
  have b: "AddStation (stubLib [''File1=http://s.example/1'']) 5
       (stationAt ''http://radio.example/my.plsdir/stream.mp3'') (emptyLibrary, io0) =
     Some (None,
           emptyLibrary\<lparr>stations :=
             [(stationAt ''http://radio.example/my.plsdir/stream.mp3'')
                \<lparr>AddedAt := 5, StreamURL := ''http://s.example/1'',
                 StreamURLs := [''http://s.example/1'']\<rparr>]\<rparr>,
           \<lparr>world = (), trace = [EvGet ''http://radio.example/my.plsdir/stream.mp3'', EvSave]\<rparr>)"
    by (simp add: AddStation_def resolvePlaylistURL_def ioGet_def Save_def stubLib_def io0_def
        stationAt_def emptyLibrary_def parsePLS_def Let_def t HasPrefix_def SplitN2_def)
  from a b show ?thesis by simp
qed

subsection \<open>The sample tap\<close>

lemma foldl_squares_nonneg:
  "0 \<le> a \<Longrightarrow> 0 \<le> foldl (\<lambda>acc i. acc + buf ! i * buf ! i) (a::real) is"
  by (induction "is" arbitrary: a) simp_all

lemma bandRMS_nonneg: "0 \<le> bandRMS buf bandSize band"
  by (simp add: bandRMS_def Let_def foldl_squares_nonneg)

lemma foldl_squares_const:
  "\<forall>i \<in> set is. buf ! i = c \<Longrightarrow>
     foldl (\<lambda>acc i. acc + buf ! i * buf ! i) a is = a + real (length is) * (c * c)"
  by (induction "is" arbitrary: a) (simp_all add: algebra_simps)

lemma bandRMS_replicate:
  assumes "0 < bandSize" and "(band + 1) * bandSize \<le> m"
  shows "bandRMS (replicate m c) bandSize band = \<bar>c\<bar>"
proof -
  from assms have le: "band * bandSize + bandSize \<le> m" by simp
  have "\<forall>i \<in> set [band * bandSize..<band * bandSize + bandSize]. replicate m c ! i = c"
    using le by simp
  from foldl_squares_const [OF this, of 0]
  have "foldl (\<lambda>acc i. acc + replicate m c ! i * replicate m c ! i) 0
               [band * bandSize..<band * bandSize + bandSize] = real bandSize * (c * c)"
    by simp
  with le assms show ?thesis
    by (simp add: bandRMS_def Let_def)
qed

lemma analyzeAndStore_cases:
  "analyzeAndStore s (ap, h) = (ap, h) \<or>
   (audioPlayer s \<and> 24 \<le> length (sampleBuffer s) \<and>
    analyzeAndStore s (ap, h) =
      (ap\<lparr>audioSamples := Some (length h)\<rparr>,
       h @ [map (bandRMS (sampleBuffer s) (length (sampleBuffer s) div 24)) [0..<24]]))"
  by (auto simp: analyzeAndStore_def Let_def)

lemma analyzeAndStore_publishes:
  assumes "audioPlayer s" and "24 \<le> length (sampleBuffer s)"
  shows "analyzeAndStore s (ap, h) =
      (ap\<lparr>audioSamples := Some (length h)\<rparr>,
       h @ [map (bandRMS (sampleBuffer s) (length (sampleBuffer s) div 24)) [0..<24]])"
proof -
  from assms(2) have "length (sampleBuffer s) div 24 \<noteq> 0" by (simp add: div_eq_0_iff)
  with assms(1) show ?thesis by (simp add: analyzeAndStore_def Let_def)
qed

lemma Stream_no_frames:
  assumes "opStream ops (streamer s) samples = ((samples1, n, ok), src1)"
    and "\<not> (ok \<and> 0 < n)"
  shows "Stream ops samples (s, ap, h) = Some ((samples1, n, ok), s\<lparr>streamer := src1\<rparr>, ap, h)"
  using assms by (auto simp: Stream_def Let_def)

lemma Stream_accumulates:
  assumes "opStream ops (streamer s) samples = ((samples1, n, ok), src1)"
    and "ok" "0 < n" "n \<le> int (length samples1)"
    and "int (length (sampleBuffer s)) + n < bufferSize s"
  shows "Stream ops samples (s, ap, h) =
           Some ((samples1, n, ok),
                 s\<lparr>streamer := src1, sampleBuffer := sampleBuffer s @ mixFrames samples1 n\<rparr>, ap, h)"
  using assms by (auto simp: Stream_def Let_def mixFrames_def)

lemma Stream_fills:
  assumes "opStream ops (streamer s) samples = ((samples1, n, ok), src1)"
    and "ok" "0 < n" "n \<le> int (length samples1)"
    and "bufferSize s \<le> int (length (sampleBuffer s)) + n"
  shows "\<exists>ap1 h1. Stream ops samples (s, ap, h) =
           Some ((samples1, n, ok), s\<lparr>streamer := src1, sampleBuffer := []\<rparr>, ap1, h1) \<and>
         (ap1, h1) = analyzeAndStore
            (s\<lparr>streamer := src1, sampleBuffer := sampleBuffer s @ mixFrames samples1 n\<rparr>) (ap, h)"
proof -
  have len: "length (mixFrames samples1 n) = nat n" using assms(4) by (simp add: mixFrames_def)
  obtain ap1 h1 where a: "analyzeAndStore
      (s\<lparr>streamer := src1, sampleBuffer := sampleBuffer s @ mixFrames samples1 n\<rparr>) (ap, h) = (ap1, h1)"
    by (metis surj_pair)
  have "Stream ops samples (s, ap, h) =
           Some ((samples1, n, ok), s\<lparr>streamer := src1, sampleBuffer := []\<rparr>, ap1, h1)"
    using assms a len by (simp add: Stream_def Let_def)
  with a show ?thesis by simp
qed


text \<open>
  C9. For every wrapped streamer and every pull in which it keeps the contract of
  \<^verbatim>\<open>beep.Streamer\<close> (the count it reports is at most the length of the buffer),
  \<^verbatim>\<open>Stream\<close> of the tap returns the buffer, the count and the flag exactly as the
  wrapped streamer left them, and leaves the wrapped streamer in the state its own
  \<^verbatim>\<open>Stream\<close> left it; \<^verbatim>\<open>Err\<close> of the tap is \<^verbatim>\<open>Err\<close> of the wrapped streamer.
  When the pull fills the window of 1024 samples of a tap attached to the player, the
  window is emptied and a new array of 24 non-negative amplitudes becomes the
  player's snapshot, with the same values returned; when the pull does not fill the
  window, the player and the store are unchanged.
\<close>

theorem tap_transparent:
  assumes inner: "opStream ops (streamer s) samples = ((samples1, n, ok), src1)"
    and contract: "n \<le> int (length samples1)"
  shows "\<exists>s1 ap1 h1.
           Stream ops samples (s, ap, h) = Some ((samples1, n, ok), s1, ap1, h1) \<and>
           streamer s1 = src1 \<and> audioPlayer s1 = audioPlayer s \<and> bufferSize s1 = bufferSize s \<and>
           Err ops s = opErr ops (streamer s) \<and> Err ops s1 = opErr ops src1 \<and>
           (ok \<and> 0 < n \<and> audioPlayer s \<and> bufferSize s = 1024 \<and>
            1024 \<le> int (length (sampleBuffer s)) + n \<longrightarrow>
              sampleBuffer s1 = [] \<and> ap1 = ap\<lparr>audioSamples := Some (length h)\<rparr> \<and>
              (\<exists>amps. h1 = h @ [amps] \<and> length amps = 24 \<and> list_all (\<lambda>x. 0 \<le> x) amps)) \<and>
           (\<not> (ok \<and> 0 < n \<and> bufferSize s \<le> int (length (sampleBuffer s)) + n) \<longrightarrow>
              ap1 = ap \<and> h1 = h)"
proof (cases "ok \<and> 0 < n")
  case False
  from Stream_no_frames [OF inner False, of ap h] False show ?thesis
    by (auto simp: Err_def)
next
  case True
  then have ok: ok and n: "0 < n" by simp_all
  show ?thesis
  proof (cases "bufferSize s \<le> int (length (sampleBuffer s)) + n")
    case False
    then have "int (length (sampleBuffer s)) + n < bufferSize s" by simp
    from Stream_accumulates [OF inner ok n contract this, of ap h] False show ?thesis
      by (auto simp: Err_def)
  next
    case full: True
    let ?s2 = "s\<lparr>streamer := src1, sampleBuffer := sampleBuffer s @ mixFrames samples1 n\<rparr>"
    from Stream_fills [OF inner ok n contract full, of ap h]
    obtain ap1 h1 where
      st: "Stream ops samples (s, ap, h) =
             Some ((samples1, n, ok), s\<lparr>streamer := src1, sampleBuffer := []\<rparr>, ap1, h1)"
      and an: "(ap1, h1) = analyzeAndStore ?s2 (ap, h)"
      by blast
    have len: "length (sampleBuffer ?s2) = length (sampleBuffer s) + nat n"
      using contract by (simp add: mixFrames_def)
    have pub: "audioPlayer s \<and> bufferSize s = 1024 \<longrightarrow>
              ap1 = ap\<lparr>audioSamples := Some (length h)\<rparr> \<and>
              (\<exists>amps. h1 = h @ [amps] \<and> length amps = 24 \<and> list_all (\<lambda>x. 0 \<le> x) amps)"
    proof
      assume a: "audioPlayer s \<and> bufferSize s = 1024"
      with full len n have ge: "24 \<le> length (sampleBuffer ?s2)" by linarith
      from a have on: "audioPlayer ?s2" by simp
      have "analyzeAndStore ?s2 (ap, h) =
          (ap\<lparr>audioSamples := Some (length h)\<rparr>,
           h @ [map (bandRMS (sampleBuffer ?s2) (length (sampleBuffer ?s2) div 24)) [0..<24]])"
        using on ge by (rule analyzeAndStore_publishes)
      with an have "ap1 = ap\<lparr>audioSamples := Some (length h)\<rparr>"
        and "h1 = h @ [map (bandRMS (sampleBuffer ?s2) (length (sampleBuffer ?s2) div 24)) [0..<24]]"
        by simp_all
      moreover have "list_all (\<lambda>x. 0 \<le> x)
          (map (bandRMS (sampleBuffer ?s2) (length (sampleBuffer ?s2) div 24)) [0..<24])"
        by (simp add: list_all_iff bandRMS_nonneg)
      ultimately show "ap1 = ap\<lparr>audioSamples := Some (length h)\<rparr> \<and>
              (\<exists>amps. h1 = h @ [amps] \<and> length amps = 24 \<and> list_all (\<lambda>x. 0 \<le> x) amps)"
        by simp
    qed
    from st pub ok n full show ?thesis by (auto simp: Err_def)
  qed
qed

lemma tone_amplitudes:
  "map (bandRMS (replicate 1024 1) 42) [0..<24] = replicate 24 1"
proof -
  have "map (bandRMS (replicate 1024 1) 42) [0..<24] = map (\<lambda>b. 1) [0..<24]"
    by (rule map_cong) (simp_all add: bandRMS_replicate)
  then show ?thesis by (simp add: map_replicate_const)
qed

lemma Stream_tone:
  "Stream (toneOps 1) (replicate 1024 (0, 0)) (NewSampleCaptureStreamer src True, ap, h) =
     Some ((replicate 1024 (1, 1), 1024, True),
           NewSampleCaptureStreamer src True,
           ap\<lparr>audioSamples := Some (length h)\<rparr>, h @ [replicate 24 1])"
proof -
  have m: "mixFrames (replicate 1024 (1, 1)) 1024 = replicate 1024 1"
    by (simp add: mixFrames_def)
  have a: "analyzeAndStore
      \<lparr>streamer = src, audioPlayer = True, sampleBuffer = replicate 1024 1, bufferSize = 1024\<rparr>
      (ap, h) = (ap\<lparr>audioSamples := Some (length h)\<rparr>, h @ [replicate 24 1])"
    using analyzeAndStore_publishes [of
        "\<lparr>streamer = src, audioPlayer = True, sampleBuffer = replicate 1024 1, bufferSize = 1024\<rparr>"
        ap h]
    by (simp add: tone_amplitudes)
  show ?thesis
    by (simp add: Stream_def toneOps_def NewSampleCaptureStreamer_def Let_def m a)
qed

theorem tap_transparent_witness:
  "\<exists>s1 h1. Stream (toneOps 1) (replicate 1024 (0, 0))
       (NewSampleCaptureStreamer ''song.mp3'' True,
        (NewAudioPlayer :: (string, string) AudioPlayer), []) =
     Some ((replicate 1024 (1, 1), 1024, True), s1,
           NewAudioPlayer\<lparr>audioSamples := Some 0\<rparr>, h1) \<and>
     sampleBuffer s1 = [] \<and> streamer s1 = ''song.mp3'' \<and> length h1 = 1"
proof -
  have inner: "opStream (toneOps 1) (streamer (NewSampleCaptureStreamer ''song.mp3'' True))
      (replicate 1024 (0, 0)) = ((replicate 1024 (1, 1), 1024, True), ''song.mp3'')"
    by (simp add: toneOps_def NewSampleCaptureStreamer_def)
  have contract: "(1024::int) \<le> int (length (replicate 1024 (1::real, 1::real)))" by simp
  from tap_transparent [OF inner contract,
      of "NewAudioPlayer :: (string, string) AudioPlayer" "[]"]
  show ?thesis
    by (auto simp: NewSampleCaptureStreamer_def)
qed

subsection \<open>The amplitude snapshot\<close>

lemma controls_keep_snapshot:
  "audioSamples (Stop ap) = audioSamples ap"
  "audioSamples (Pause now now' ap) = audioSamples ap"
  "audioSamples (Resume now ap) = audioSamples ap"
  "audioSamples (TogglePause now now' ap) = audioSamples ap"
  "audioSamples (SetDuration d ap) = audioSamples ap"
  "audioSamples (installSession now p s rd ap) = audioSamples ap"
  "audioSamples (fst (completionCallback e s' rd' (ap, w))) = audioSamples ap"
  by (simp_all add: Stop_def Pause_def Resume_def TogglePause_def SetDuration_def
      installSession_def completionCallback_def Let_def split: option.splits)

lemma decodeAndInstall_keeps_snapshot:
  "audioSamples (fst (snd (decodeAndInstall e now p c rd (ap, w)))) = audioSamples ap"
  by (simp add: decodeAndInstall_def controls_keep_snapshot split: prod.splits sum.splits)

lemma playDirectly_keeps_snapshot:
  "audioSamples (fst (snd (playDirectly e now p (ap, w)))) = audioSamples ap"
  by (simp add: playDirectly_def Let_def decodeAndInstall_keeps_snapshot
      split: option.splits prod.splits sum.splits)

lemma fallbackLoop_keeps_snapshot:
  "audioSamples (fst (snd (fallbackLoop e now urls le (ap, w)))) = audioSamples ap"
proof (induction urls arbitrary: le ap w)
  case Nil
  then show ?case by simp
next
  case (Cons u us)
  obtain r ap1 w1 where r: "playDirectly e now u (ap, w) = (r, ap1, w1)" by (metis prod_cases3)
  from playDirectly_keeps_snapshot [of e now u ap w] r
  have k: "audioSamples ap1 = audioSamples ap" by simp
  show ?case
  proof (cases r)
    case None
    with r k show ?thesis by simp
  next
    case (Some err)
    with r k Cons.IH [of "Some err" ap1 w1] show ?thesis by simp
  qed
qed

lemma Play_keeps_snapshot:
  "audioSamples (fst (snd (Play e now p (ap, w)))) = audioSamples ap"
proof -
  have "audioSamples (fst (snd (fallbackLoop e now [p] None (Stop ap, w)))) = audioSamples (Stop ap)"
    by (rule fallbackLoop_keeps_snapshot)
  moreover have "audioSamples (fst (snd (playDirectly e now p (Stop ap, w)))) = audioSamples (Stop ap)"
    by (rule playDirectly_keeps_snapshot)
  ultimately show ?thesis
    by (simp add: Play_def playWithFallback_def controls_keep_snapshot del: fallbackLoop.simps)
qed

lemma PlayRadioStation_keeps_snapshot:
  "audioSamples (fst (snd (PlayRadioStation e now st (ap, w)))) = audioSamples ap"
  by (simp add: PlayRadioStation_def playWithFallback_def fallbackLoop_keeps_snapshot
      split: option.splits)

lemma snapshotOK_control:
  assumes "snapshotOK sys" and "audioSamples ap = audioSamples (sysPlayer sys)"
  shows "snapshotOK (sys\<lparr>sysPlayer := ap, sysIO := w\<rparr>)"
    and "snapshotOK (sys\<lparr>sysPlayer := ap\<rparr>)"
  using assms by (simp_all add: snapshotOK_def split: option.splits)

lemma analyzeAndStore_snapshot:
  "analyzeAndStore s (ap, h) = (ap, h) \<or>
   (\<exists>amps. analyzeAndStore s (ap, h) = (ap\<lparr>audioSamples := Some (length h)\<rparr>, h @ [amps]) \<and>
           length amps = 24 \<and> list_all (\<lambda>x. 0 \<le> x) amps)"
  using analyzeAndStore_cases [of s ap h]
  by (auto simp: list_all_iff bandRMS_nonneg)

lemma Stream_snapshot:
  assumes "Stream ops samples (t, ap, h) = Some (r, t1, ap1, h1)"
  shows "(ap1 = ap \<and> h1 = h) \<or>
         (\<exists>amps. ap1 = ap\<lparr>audioSamples := Some (length h)\<rparr> \<and> h1 = h @ [amps] \<and>
                 length amps = 24 \<and> list_all (\<lambda>x. 0 \<le> x) amps)"
proof -
  obtain r1 src1 where r1: "opStream ops (streamer t) samples = (r1, src1)"
    by (cases "opStream ops (streamer t) samples")
  obtain samples1 n ok where "r1 = (samples1, n, ok)" by (cases r1)
  with r1 have inner: "opStream ops (streamer t) samples = ((samples1, n, ok), src1)" by simp
  from assms inner show ?thesis
    using analyzeAndStore_snapshot
      [of "t\<lparr>streamer := src1, sampleBuffer := sampleBuffer t @ mixFrames samples1 n\<rparr>" ap h]
    by (auto simp: Stream_def Let_def split: if_splits prod.splits)
qed

lemma step_snapshotOK:
  assumes "snapshotOK sys" and "step ops e c sys = Some sys1"
  shows "snapshotOK sys1"
proof (cases c)
  case (CmdPlay now path)
  with assms(2) have "sys1 = sys\<lparr>sysPlayer := fst (snd (Play e now path (sysPlayer sys, sysIO sys))),
                                 sysIO := snd (snd (Play e now path (sysPlayer sys, sysIO sys)))\<rparr>"
    by (auto split: prod.splits)
  with assms(1) show ?thesis by (simp add: snapshotOK_control Play_keeps_snapshot)
next
  case (CmdPlayRadioStation now st)
  with assms(2) have "sys1 = sys\<lparr>sysPlayer := fst (snd (PlayRadioStation e now st (sysPlayer sys, sysIO sys))),
                                 sysIO := snd (snd (PlayRadioStation e now st (sysPlayer sys, sysIO sys)))\<rparr>"
    by (auto split: prod.splits)
  with assms(1) show ?thesis by (simp add: snapshotOK_control PlayRadioStation_keeps_snapshot)
next
  case (CmdPause now now')
  with assms show ?thesis by (auto simp: snapshotOK_control controls_keep_snapshot)
next
  case (CmdResume now)
  with assms show ?thesis by (auto simp: snapshotOK_control controls_keep_snapshot)
next
  case (CmdTogglePause now now')
  with assms show ?thesis by (auto simp: snapshotOK_control controls_keep_snapshot)
next
  case CmdStop
  with assms show ?thesis by (auto simp: snapshotOK_control controls_keep_snapshot)
next
  case (CmdSetDuration d)
  with assms show ?thesis by (auto simp: snapshotOK_control controls_keep_snapshot)
next
  case (CmdFinish s rd)
  with assms(2) have "sys1 = sys\<lparr>sysPlayer := fst (completionCallback e s rd (sysPlayer sys, sysIO sys)),
                                 sysIO := snd (completionCallback e s rd (sysPlayer sys, sysIO sys))\<rparr>"
    by (auto split: prod.splits)
  with assms(1) show ?thesis by (simp add: snapshotOK_control controls_keep_snapshot)
next
  case (CmdStream t samples)
  with assms(2) obtain r t1 ap1 h1 where
    st: "Stream ops samples (t, sysPlayer sys, sysStore sys) = Some (r, t1, ap1, h1)"
    and s1: "sys1 = sys\<lparr>sysPlayer := ap1, sysStore := h1\<rparr>"
    by (auto split: option.splits)
  from Stream_snapshot [OF st] show ?thesis
  proof
    assume "ap1 = sysPlayer sys \<and> h1 = sysStore sys"
    with s1 assms(1) show ?thesis by simp
  next
    assume "\<exists>amps. ap1 = (sysPlayer sys)\<lparr>audioSamples := Some (length (sysStore sys))\<rparr> \<and>
                   h1 = sysStore sys @ [amps] \<and> length amps = 24 \<and> list_all (\<lambda>x. 0 \<le> x) amps"
    then obtain amps where "ap1 = (sysPlayer sys)\<lparr>audioSamples := Some (length (sysStore sys))\<rparr>"
      "h1 = sysStore sys @ [amps]" "length amps = 24" "list_all (\<lambda>x. 0 \<le> x) amps"
      by blast
    with s1 assms(1) show ?thesis
      by (auto simp: snapshotOK_def list_all_iff)
  qed
next
  case CmdGetAudioSamples
  with assms show ?thesis
    by (auto simp: snapshotOK_def GetAudioSamples_def list_all_iff nth_append less_Suc_eq
        split: option.splits)
next
  case (CmdWrite a i x)
  with assms(2) have held: "a \<in> set (sysHeld sys)"
    and s1: "sys1 = sys\<lparr>sysStore := (sysStore sys)[a := (sysStore sys ! a)[i := x]]\<rparr>"
    by (auto simp: writeSlice_def split: if_splits option.splits)
  have "\<And>a0. audioSamples (sysPlayer sys) = Some a0 \<Longrightarrow>
      (sysStore sys)[a := (sysStore sys ! a)[i := x]] ! a0 = sysStore sys ! a0"
  proof -
    fix a0
    assume "audioSamples (sysPlayer sys) = Some a0"
    with assms(1) have "a0 \<notin> set (sysHeld sys)" by (simp add: snapshotOK_def)
    with held have "a \<noteq> a0" by blast
    then show "(sysStore sys)[a := (sysStore sys ! a)[i := x]] ! a0 = sysStore sys ! a0" by simp
  qed
  with assms(1) s1 show ?thesis
    by (auto simp: snapshotOK_def list_all_iff split: option.splits)
qed

lemma run_snapshotOK:
  "snapshotOK sys \<Longrightarrow> run ops e cmds sys = Some sys1 \<Longrightarrow> snapshotOK sys1"
proof (induction cmds arbitrary: sys)
  case Nil
  then show ?case by simp
next
  case (Cons c cs)
  from Cons.prems(2) obtain sys2 where s: "step ops e c sys = Some sys2"
    and r: "run ops e cs sys2 = Some sys1"
    by (auto split: option.splits)
  from step_snapshotOK [OF Cons.prems(1) s] r show ?case by (rule Cons.IH)
qed

lemma initial_snapshotOK: "snapshotOK (initialSystem w)"
  by (simp add: snapshotOK_def initialSystem_def NewAudioPlayer_def)

lemma step_no_stream:
  assumes "\<not> isStream c" and "step ops e c sys = Some sys1"
  shows "audioSamples (sysPlayer sys1) = audioSamples (sysPlayer sys)"
proof (cases c)
  case (CmdPlay now path)
  with assms(2) have "sysPlayer sys1 = fst (snd (Play e now path (sysPlayer sys, sysIO sys)))"
    by (auto split: prod.splits)
  then show ?thesis by (simp add: Play_keeps_snapshot)
next
  case (CmdPlayRadioStation now st)
  with assms(2) have "sysPlayer sys1 = fst (snd (PlayRadioStation e now st (sysPlayer sys, sysIO sys)))"
    by (auto split: prod.splits)
  then show ?thesis by (simp add: PlayRadioStation_keeps_snapshot)
next
  case (CmdFinish s rd)
  with assms(2) have "sysPlayer sys1 = fst (completionCallback e s rd (sysPlayer sys, sysIO sys))"
    by (auto split: prod.splits)
  then show ?thesis by (simp add: controls_keep_snapshot)
next
  case (CmdStream t samples)
  with assms(1) show ?thesis by simp
qed (use assms in \<open>auto simp: controls_keep_snapshot split: prod.splits option.splits if_splits\<close>)

lemma run_no_stream:
  "list_all (\<lambda>c. \<not> isStream c) cmds \<Longrightarrow> run ops e cmds sys = Some sys1 \<Longrightarrow>
     audioSamples (sysPlayer sys1) = audioSamples (sysPlayer sys)"
proof (induction cmds arbitrary: sys)
  case Nil
  then show ?case by simp
next
  case (Cons c cs)
  from Cons.prems(2) obtain sys2 where s: "step ops e c sys = Some sys2"
    and r: "run ops e cs sys2 = Some sys1"
    by (auto split: option.splits)
  from Cons.prems(1) have c: "\<not> isStream c" and cs: "list_all (\<lambda>c. \<not> isStream c) cs" by simp_all
  from Cons.IH [OF cs r] step_no_stream [OF c s] show ?case by simp
qed


lemma GetAudioSamples_copy:
  assumes ok: "snapshotOK sys"
  shows "\<exists>a h. GetAudioSamples (sysPlayer sys, sysStore sys) = (a, h) \<and>
           a = length (sysStore sys) \<and>
           length (h ! a) = 24 \<and> list_all (\<lambda>x. 0 \<le> x) (h ! a) \<and>
           (audioSamples (sysPlayer sys) = None \<longrightarrow> h ! a = replicate 24 0) \<and>
           audioSamples (sysPlayer sys) \<noteq> Some a \<and> a \<notin> set (sysHeld sys) \<and>
           (\<forall>i x h1. writeSlice a i x h = Some h1 \<longrightarrow>
              (\<exists>b h2. GetAudioSamples (sysPlayer sys, h1) = (b, h2) \<and> b \<noteq> a \<and> h2 ! b = h ! a))"
proof (cases "audioSamples (sysPlayer sys)")
  case None
  with ok show ?thesis
    by (auto simp: GetAudioSamples_def snapshotOK_def writeSlice_def list_all_iff nth_append)
next
  case (Some a0)
  with ok have a0: "a0 < length (sysStore sys)" and nh: "a0 \<notin> set (sysHeld sys)"
    and len: "length (sysStore sys ! a0) = 24" and pos: "list_all (\<lambda>x. 0 \<le> x) (sysStore sys ! a0)"
    and held: "list_all (\<lambda>a. a < length (sysStore sys)) (sysHeld sys)"
    by (simp_all add: snapshotOK_def)
  let ?h = "sysStore sys @ [sysStore sys ! a0]"
  let ?a = "length (sysStore sys)"
  have g: "GetAudioSamples (sysPlayer sys, sysStore sys) = (?a, ?h)"
    using Some by (simp add: GetAudioSamples_def)
  have v: "?h ! ?a = sysStore sys ! a0" by simp
  have fresh: "?a \<notin> set (sysHeld sys)" using held by (auto simp: list_all_iff)
  have w: "\<forall>i x h1. writeSlice ?a i x ?h = Some h1 \<longrightarrow>
              (\<exists>b h2. GetAudioSamples (sysPlayer sys, h1) = (b, h2) \<and> b \<noteq> ?a \<and> h2 ! b = ?h ! ?a)"
  proof (intro allI impI)
    fix i x h1
    assume "writeSlice ?a i x ?h = Some h1"
    then have h1: "h1 = ?h[?a := (?h ! ?a)[i := x]]"
      by (simp add: writeSlice_def split: if_splits)
    then have l: "length h1 = Suc ?a" by simp
    from h1 a0 have k: "h1 ! a0 = sysStore sys ! a0" by (simp add: nth_append)
    have "GetAudioSamples (sysPlayer sys, h1) = (length h1, h1 @ [h1 ! a0])"
      using Some by (simp add: GetAudioSamples_def)
    moreover have "(h1 @ [h1 ! a0]) ! length h1 = h1 ! a0" by simp
    ultimately show "\<exists>b h2. GetAudioSamples (sysPlayer sys, h1) = (b, h2) \<and> b \<noteq> ?a \<and> h2 ! b = ?h ! ?a"
      using l k by simp
  qed
  from g v fresh w a0 len pos Some show ?thesis by auto
qed

text \<open>
  C7. After every run of the player from \<^verbatim>\<open>NewAudioPlayer\<close> (controls, completion
  callbacks, pulls of the audio thread through any tap, earlier calls of
  \<^verbatim>\<open>GetAudioSamples\<close> and callers' writes into the slices they were given),
  \<^verbatim>\<open>GetAudioSamples\<close> returns a slice of exactly 24 values, none negative; all are
  zero while no snapshot was published, which is so in every run without a pull; the
  slice is a new array, not the player's and not one handed out before, and whatever a
  caller then writes into it, the next \<^verbatim>\<open>GetAudioSamples\<close> returns the same values
  as before in yet another array.
\<close>

theorem snapshot_shape:
  assumes "run ops e cmds (initialSystem w0) = Some sys"
  shows "\<exists>a h. GetAudioSamples (sysPlayer sys, sysStore sys) = (a, h) \<and>
           a = length (sysStore sys) \<and>
           length (h ! a) = 24 \<and> list_all (\<lambda>x. 0 \<le> x) (h ! a) \<and>
           (audioSamples (sysPlayer sys) = None \<longrightarrow> h ! a = replicate 24 0) \<and>
           (list_all (\<lambda>c. \<not> isStream c) cmds \<longrightarrow> audioSamples (sysPlayer sys) = None) \<and>
           audioSamples (sysPlayer sys) \<noteq> Some a \<and> a \<notin> set (sysHeld sys) \<and>
           (\<forall>i x h1. writeSlice a i x h = Some h1 \<longrightarrow>
              (\<exists>b h2. GetAudioSamples (sysPlayer sys, h1) = (b, h2) \<and> b \<noteq> a \<and> h2 ! b = h ! a))"
proof -
  have ok: "snapshotOK sys"
    using initial_snapshotOK assms by (rule run_snapshotOK)
  have "list_all (\<lambda>c. \<not> isStream c) cmds \<longrightarrow> audioSamples (sysPlayer sys) = None"
  proof
    assume "list_all (\<lambda>c. \<not> isStream c) cmds"
    from run_no_stream [OF this assms] show "audioSamples (sysPlayer sys) = None"
      by (simp add: initialSystem_def NewAudioPlayer_def)
  qed
  then have ns: "list_all (\<lambda>c. \<not> isStream c) cmds \<longrightarrow> audioSamples (sysPlayer sys) = None" .
  from GetAudioSamples_copy [OF ok] obtain a h where
    "GetAudioSamples (sysPlayer sys, sysStore sys) = (a, h)"
    "a = length (sysStore sys)"
    "length (h ! a) = 24" "list_all (\<lambda>x. 0 \<le> x) (h ! a)"
    "audioSamples (sysPlayer sys) = None \<longrightarrow> h ! a = replicate 24 0"
    "audioSamples (sysPlayer sys) \<noteq> Some a" "a \<notin> set (sysHeld sys)"
    "\<forall>i x h1. writeSlice a i x h = Some h1 \<longrightarrow>
        (\<exists>b h2. GetAudioSamples (sysPlayer sys, h1) = (b, h2) \<and> b \<noteq> a \<and> h2 ! b = h ! a)"
    by (elim exE conjE) (rule that; assumption)
  with ns show ?thesis
    by (intro exI [of _ a] exI [of _ h] conjI) assumption+
qed

lemma playing_song_run:
  "Play (stubEnv []) 0 ''song.mp3'' (NewAudioPlayer, \<lparr>world = (), trace = []\<rparr>) =
   (None, installSession 0 ''song.mp3'' ''song.mp3'' ''song.mp3'' (Stop NewAudioPlayer),
    \<lparr>world = (), trace = [EvOpen ''song.mp3'', EvDecode MP3]\<rparr>)"
  by (simp add: eval_play eval_strings)

theorem snapshot_shape_witness:
  "\<exists>sys a h.
     run (toneOps 1) (stubEnv [])
       [CmdPlay 0 ''song.mp3'',
        CmdStream (NewSampleCaptureStreamer ''song.mp3'' True) (replicate 1024 (0, 0)),
        CmdGetAudioSamples, CmdWrite 1 0 9, CmdStop] (initialSystem ()) = Some sys \<and>
     sysStore sys = [replicate 24 1, (replicate 24 1)[0 := 9]] \<and>
     GetAudioSamples (sysPlayer sys, sysStore sys) = (a, h) \<and> a = 2 \<and>
     length (h ! a) = 24 \<and> list_all (\<lambda>x. 0 \<le> x) (h ! a)"
proof -
  let ?cmds = "[CmdPlay 0 ''song.mp3'',
        CmdStream (NewSampleCaptureStreamer ''song.mp3'' True) (replicate 1024 (0, 0)),
        CmdGetAudioSamples, CmdWrite 1 0 9, CmdStop]"
  let ?ap = "installSession 0 ''song.mp3'' ''song.mp3'' ''song.mp3'' (Stop NewAudioPlayer)"
  let ?sys = "\<lparr>sysPlayer = Stop (?ap\<lparr>audioSamples := Some 0\<rparr>),
               sysIO = \<lparr>world = (), trace = [EvOpen ''song.mp3'', EvDecode MP3]\<rparr>,
               sysStore = [replicate 24 1, (replicate 24 1)[0 := 9]],
               sysHeld = [1]\<rparr>"
  have r: "run (toneOps 1) (stubEnv []) ?cmds (initialSystem ()) = Some ?sys"
    by (simp add: initialSystem_def playing_song_run Stream_tone GetAudioSamples_def writeSlice_def)
  from snapshot_shape [OF r] obtain a h where
    g: "GetAudioSamples (sysPlayer ?sys, sysStore ?sys) = (a, h)"
    and a: "a = length (sysStore ?sys)"
    and l: "length (h ! a) = 24" and p: "list_all (\<lambda>x. 0 \<le> x) (h ! a)"
    by (elim exE conjE) (rule that; assumption)
  from a have a2: "a = 2" by simp
  have st: "sysStore ?sys = [replicate 24 1, (replicate 24 1)[0 := 9]]" by simp
  show ?thesis
    by (intro exI [of _ ?sys] exI [of _ a] exI [of _ h] conjI) (rule r st g a2 l p)+
qed




end
